theory Spec2Isabelle
  imports Main
begin

section \<open>The integer program of the scheduling notebook\<close>

text \<open>
  The notebook \<^verbatim>\<open>scheduler_ip.ipynb\<close> turns a roster of teaching assistants into a
  0/1 integer program: it creates solver variables, submits linear constraints with
  \<^verbatim>\<open>solver.Add\<close> and maximizes a linear objective. This theory embeds the cells that
  clean the roster and build the program. A solver variable is identified by the name
  the notebook gives it; a solution is a valuation of the variables.
\<close>

subsection \<open>Solver variables, linear expressions and constraints\<close>

text \<open>
  \<^verbatim>\<open>solver.IntVar(0, 1, name)\<close> with the four name schemes of the notebook:
  \<^verbatim>\<open>ta_{ta_idx}_block_{block_id}\<close>, \<^verbatim>\<open>ta_{ta_idx}_shift_{k}\<close>,
  \<^verbatim>\<open>ta_{ta_idx}_recitation_{recitation_id}\<close> and
  \<^verbatim>\<open>buddy_{requester_id}_{requested_id}_{shared_recitation}\<close>. A buddy request that
  occurs twice in the request list creates two distinct variables of the same name, so
  a buddy variable also carries the position of its request in the list.
\<close>

datatype var =
    BlockVar nat nat
  | ShiftVar nat nat
  | RecitationVar nat nat
  | BuddyVar nat nat nat nat

text \<open>A linear expression: its terms (coefficient, variable) and its constant.\<close>

datatype linear_expr = LinearExpr "(int \<times> var) list" int

definition Var :: "var \<Rightarrow> linear_expr" where
  "Var x = LinearExpr [(1, x)] 0"

definition Num :: "int \<Rightarrow> linear_expr" where
  "Num c = LinearExpr [] c"

fun expr_add :: "linear_expr \<Rightarrow> linear_expr \<Rightarrow> linear_expr" where
  "expr_add (LinearExpr ts c) (LinearExpr us d) = LinearExpr (ts @ us) (c + d)"

fun expr_scale :: "int \<Rightarrow> linear_expr \<Rightarrow> linear_expr" where
  "expr_scale k (LinearExpr ts c) = LinearExpr (map (\<lambda>(a, x). (k * a, x)) ts) (k * c)"

definition expr_sub :: "linear_expr \<Rightarrow> linear_expr \<Rightarrow> linear_expr" where
  "expr_sub e f = expr_add e (expr_scale (- 1) f)"

text \<open>\<^verbatim>\<open>solver.Sum(exprs)\<close>.\<close>

definition solver_Sum :: "linear_expr list \<Rightarrow> linear_expr" where
  "solver_Sum es = foldr expr_add es (Num 0)"

text \<open>
  A constraint object \<^verbatim>\<open>LinearConstraint(expr, lb, ub)\<close> stands for
  \<open>lb \<le> expr \<le> ub\<close>; \<open>None\<close> is an infinite bound. The comparison operators of the
  solver's expressions build such objects: \<^verbatim>\<open>e <= f\<close> is
  \<^verbatim>\<open>LinearConstraint(e - f, -inf, 0)\<close>, \<^verbatim>\<open>e >= f\<close> is
  \<^verbatim>\<open>LinearConstraint(e - f, 0, inf)\<close> and \<^verbatim>\<open>e == f\<close> is
  \<^verbatim>\<open>LinearConstraint(e - f, 0, 0)\<close>.
\<close>

datatype linear_constraint = LinearConstraint linear_expr "int option" "int option"

definition expr_le :: "linear_expr \<Rightarrow> linear_expr \<Rightarrow> linear_constraint" where
  "expr_le e f = LinearConstraint (expr_sub e f) None (Some 0)"

definition expr_ge :: "linear_expr \<Rightarrow> linear_expr \<Rightarrow> linear_constraint" where
  "expr_ge e f = LinearConstraint (expr_sub e f) (Some 0) None"

definition expr_eq :: "linear_expr \<Rightarrow> linear_expr \<Rightarrow> linear_constraint" where
  "expr_eq e f = LinearConstraint (expr_sub e f) (Some 0) (Some 0)"

text \<open>
  Python reads a chained comparison \<^verbatim>\<open>a <= e <= b\<close> as \<^verbatim>\<open>(a <= e) and (e <= b)\<close>,
  and \<^verbatim>\<open>x and y\<close> evaluates to \<^verbatim>\<open>y\<close> when \<^verbatim>\<open>x\<close> is truthy and to \<^verbatim>\<open>x\<close>
  otherwise. Both comparisons build constraint objects. A constraint object defines
  neither \<^verbatim>\<open>__bool__\<close> nor \<^verbatim>\<open>__len__\<close>, so it is truthy: the chained comparison
  evaluates to its second comparison, and that is the one constraint
  \<^verbatim>\<open>solver.Add\<close> receives.
\<close>

definition py_and :: "linear_constraint \<Rightarrow> linear_constraint \<Rightarrow> linear_constraint" where
  "py_and c d = d"

text \<open>The value of an expression and the truth of a constraint under a valuation.\<close>

fun solution_value :: "(var \<Rightarrow> int) \<Rightarrow> linear_expr \<Rightarrow> int" where
  "solution_value v (LinearExpr ts c) = sum_list (map (\<lambda>(a, x). a * v x) ts) + c"

fun satisfied :: "(var \<Rightarrow> int) \<Rightarrow> linear_constraint \<Rightarrow> bool" where
  "satisfied v (LinearConstraint e lb ub) =
     ((case lb of None \<Rightarrow> True | Some l \<Rightarrow> l \<le> solution_value v e) \<and>
      (case ub of None \<Rightarrow> True | Some u \<Rightarrow> solution_value v e \<le> u))"

text \<open>
  The program under construction: the variables created so far (each with the bounds
  0 and 1), the constraints submitted so far, and the objective to maximize.
\<close>

record model =
  variables :: "var list"
  constraints :: "linear_constraint list"
  objective :: linear_expr

definition feasible :: "model \<Rightarrow> (var \<Rightarrow> int) \<Rightarrow> bool" where
  "feasible m v =
     (list_all (\<lambda>x. 0 \<le> v x \<and> v x \<le> 1) (variables m) \<and>
      list_all (satisfied v) (constraints m))"

subsection \<open>Model parameters and input data\<close>

text \<open>
  The cell of model parameters. The two floating-point parameters of the recitation
  utility are not part of the record: the utility
  \<^verbatim>\<open>int(round(returning_mult * recitation_pref_shape**recitation_pref))\<close> enters the
  objective as an integer coefficient per assistant, which the objective takes as a
  function of the assistant.
\<close>

record params =
  max_oh_shift_length :: nat
  max_oh_shifts_per_ta :: int
  max_recitations_per_ta :: int
  recitation_time_commitment :: int
  grading_time_commitment :: int
  one_shift_per_day :: bool
  oh_preferred_weight :: int
  recitation_one_way_buddy_weight :: int
  alpha :: int
  min_total_ta_hours :: int

definition notebook_params :: params where
  "notebook_params =
     \<lparr> max_oh_shift_length = 3, max_oh_shifts_per_ta = 3, max_recitations_per_ta = 2,
       recitation_time_commitment = 2, grading_time_commitment = 2,
       one_shift_per_day = True, oh_preferred_weight = 4,
       recitation_one_way_buddy_weight = 5, alpha = 5, min_total_ta_hours = 80 \<rparr>"

definition weekend :: "string list" where
  "weekend = [''Sat'', ''Sun'']"

text \<open>\<^verbatim>\<open>Block = namedtuple('Block', ['day', 'start', 'end'])\<close>\<close>

datatype block = Block (block_day: string) (block_start: int) (block_end: int)

text \<open>
  The block index. The loop over \<^verbatim>\<open>oh_demand_bounds\<close> gives every hour of every
  window the next id, so with windows that do not overlap on a day the id of a block is
  its position in the enumeration; \<^verbatim>\<open>oh_block_id_to_block\<close> and
  \<^verbatim>\<open>oh_demand_by_block_id\<close> are then the two projections of the enumeration.
\<close>

type_synonym demand_window = "(string \<times> int \<times> int) \<times> (int \<times> int)"

definition enumerate_blocks :: "demand_window list \<Rightarrow> (block \<times> (int \<times> int)) list" where
  "enumerate_blocks oh_demand_bounds =
     concat (map (\<lambda>((day, start, end_hour), demand).
                    map (\<lambda>hour. (Block day hour (hour + 1), demand)) [start..end_hour])
                 oh_demand_bounds)"

definition oh_block_id_to_block :: "demand_window list \<Rightarrow> block list" where
  "oh_block_id_to_block oh_demand_bounds = map fst (enumerate_blocks oh_demand_bounds)"

definition oh_demand_by_block_id :: "demand_window list \<Rightarrow> (int \<times> int) list" where
  "oh_demand_by_block_id oh_demand_bounds = map snd (enumerate_blocks oh_demand_bounds)"

text \<open>
  A row of \<^verbatim>\<open>availability_df\<close>. The three availability arrays are boolean arrays
  over the block ids and over the recitation ids: \<^verbatim>\<open>embed_block_schedule\<close> and
  \<^verbatim>\<open>embed_recitations\<close> create them with the size of the block universe and of the
  recitation list. The loops below take their bounds from the arrays, as the notebook
  does, and read the block table at ids below that size.
\<close>

record ta =
  name :: string
  min_hours :: int
  max_hours :: int
  recitation_pref :: int
  oh_available :: "bool list"
  oh_pref_available :: "bool list"
  recitation_available :: "bool list"
  returning :: bool

text \<open>\<^verbatim>\<open>np.where(a == 1)[0]\<close>, \<^verbatim>\<open>a.sum()\<close> and the slice \<^verbatim>\<open>a[i:j]\<close>.\<close>

definition np_where :: "bool list \<Rightarrow> nat list" where
  "np_where a = filter (\<lambda>i. a ! i) [0..<length a]"

definition np_sum :: "bool list \<Rightarrow> nat" where
  "np_sum a = length (filter (\<lambda>x. x) a)"

definition slice :: "'a list \<Rightarrow> nat \<Rightarrow> nat \<Rightarrow> 'a list" where
  "slice a i j = take (j - i) (drop i a)"

subsection \<open>Input cleanup and validation\<close>

datatype error = AssertionError | AttributeError | KeyError | NotImplementedError

text \<open>
  \<^verbatim>\<open>assert (no_recitation_tas_df['recitation_available'].sum() == 0).all()\<close>: the
  assistants with willingness 0 have no recitation availability. The column holds one
  array per row, and the sum of an empty column is the integer \<^verbatim>\<open>0\<close>: when no row has
  willingness 0 the comparison \<^verbatim>\<open>0 == 0\<close> is a plain \<^verbatim>\<open>bool\<close>, which has no method
  \<^verbatim>\<open>all\<close>, and the line raises \<^verbatim>\<open>AttributeError\<close> before anything is asserted.
\<close>

definition assert_no_recitation :: "ta list \<Rightarrow> error + unit" where
  "assert_no_recitation df =
     (let no_recitation_tas_df = filter (\<lambda>row. recitation_pref row = 0) df
      in if no_recitation_tas_df = [] then Inl AttributeError
         else if list_all (\<lambda>row. np_sum (recitation_available row) = 0) no_recitation_tas_df
         then Inr () else Inl AssertionError)"

text \<open>
  The cell of special cases writes \<^verbatim>\<open>max_hours\<close> of row 2 and replaces the
  availability of row 9 by its preferred blocks; reading row 9 of a shorter frame
  raises \<^verbatim>\<open>KeyError\<close>.
\<close>

definition special_cases :: "ta list \<Rightarrow> error + ta list" where
  "special_cases df =
     (if length df < 10 then Inl KeyError
      else Inr (let df2 = df[2 := (df ! 2)\<lparr>max_hours := 5\<rparr>]
                in df2[9 := (df2 ! 9)\<lparr>oh_available := oh_pref_available (df2 ! 9)\<rparr>]))"

text \<open>
  The check of preferred against available blocks is a cell that displays, per row,
  \<^verbatim>\<open>(row['oh_pref_available'] & ~row['oh_available']).sum()\<close>. Its value is shown and
  not used.
\<close>

definition pref_not_available :: "ta \<Rightarrow> nat" where
  "pref_not_available row =
     np_sum (map (\<lambda>(pref, avail). pref \<and> \<not> avail)
                 (zip (oh_pref_available row) (oh_available row)))"

definition filter_roster :: "params \<Rightarrow> ta list \<Rightarrow> ta list" where
  "filter_roster p df = filter (\<lambda>row. max_hours row > grading_time_commitment p) df"

text \<open>The cleanup cells in the order of the notebook; an exception ends the run.\<close>

definition cleanup :: "params \<Rightarrow> ta list \<Rightarrow> error + ta list" where
  "cleanup p df =
     (case assert_no_recitation df of
        Inl e \<Rightarrow> Inl e
      | Inr _ \<Rightarrow>
          (case special_cases df of
             Inl e \<Rightarrow> Inl e
           | Inr df' \<Rightarrow> Inr (filter_roster p df')))"

text \<open>
  Buddy requests are resolved against the names of the filtered roster;
  \<^verbatim>\<open>names.index\<close> is the first position of a name.
\<close>

fun index_of :: "'a list \<Rightarrow> 'a \<Rightarrow> nat" where
  "index_of [] x = 0"
| "index_of (y # ys) x = (if y = x then 0 else Suc (index_of ys x))"

definition resolve_buddies :: "ta list \<Rightarrow> (string \<times> string) list \<Rightarrow> (nat \<times> nat) list" where
  "resolve_buddies availability_df ta_buddies =
     (let names = map name availability_df
      in map (\<lambda>(requester, requested). (index_of names requester, index_of names requested))
             (filter (\<lambda>(requester, requested). requester \<in> set names \<and> requested \<in> set names)
                     ta_buddies))"

subsection \<open>Office hours: block and shift variables of one assistant\<close>

text \<open>
  \<^verbatim>\<open>row_blocks\<close>: one variable per block id that the availability array marks.
\<close>

definition row_blocks :: "nat \<Rightarrow> bool list \<Rightarrow> (nat \<times> var) list" where
  "row_blocks ta_idx availability =
     map (\<lambda>block_id. (block_id, BlockVar ta_idx block_id)) (np_where availability)"

text \<open>
  The body of the two loops over \<^verbatim>\<open>window\<close> and \<^verbatim>\<open>block_idx\<close>: the
  \<^verbatim>\<open>continue\<close> for shifts that start at 21 or later, then the test that creates a
  shift.
\<close>

definition keep_shift :: "block list \<Rightarrow> bool list \<Rightarrow> nat \<Rightarrow> nat \<Rightarrow> bool" where
  "keep_shift blocks availability window block_idx =
     (let start_block = blocks ! block_idx;
          end_block = blocks ! (block_idx + window)
      in if block_start start_block \<ge> 21 \<and> window < 2 then False
         else block_day start_block = block_day end_block \<and>
              np_sum (slice availability block_idx (block_idx + window + 1)) = window + 1)"

text \<open>The pairs (window, block_idx) that create a shift, in the order of the loops.\<close>

definition shift_windows :: "params \<Rightarrow> block list \<Rightarrow> bool list \<Rightarrow> (nat \<times> nat) list" where
  "shift_windows p blocks availability =
     concat (map (\<lambda>window.
                    map (\<lambda>block_idx. (window, block_idx))
                        (filter (keep_shift blocks availability window)
                                [0..<length availability - window]))
                 [0..<max_oh_shift_length p])"

text \<open>
  \<^verbatim>\<open>Shift = namedtuple('Shift', ['var', 'day', 'start', 'end'])\<close>; the variable of
  the k-th shift of a row is named by \<^verbatim>\<open>len(row_shifts)\<close> at its creation.
\<close>

datatype shift = Shift (shift_var: var) (shift_day: string) (shift_start: int) (shift_end: int)

definition make_shift :: "block list \<Rightarrow> nat \<Rightarrow> nat \<times> nat \<times> nat \<Rightarrow> shift" where
  "make_shift blocks ta_idx =
     (\<lambda>(k, window, block_idx).
        Shift (ShiftVar ta_idx k)
              (block_day (blocks ! block_idx))
              (block_start (blocks ! block_idx))
              (block_end (blocks ! (block_idx + window))))"

definition row_shifts :: "params \<Rightarrow> block list \<Rightarrow> nat \<Rightarrow> bool list \<Rightarrow> shift list" where
  "row_shifts p blocks ta_idx availability =
     map (make_shift blocks ta_idx) (enumerate 0 (shift_windows p blocks availability))"

text \<open>
  The inner loop over the blocks of a shift: every pass submits
  \<^verbatim>\<open>block_var >= shift_var\<close> and appends the shift variable to
  \<^verbatim>\<open>block_var_to_shift_vars[block_var]\<close>. \<open>shift_blocks\<close> is the range of the
  loop, \<^verbatim>\<open>range(block_idx, block_idx + window + 1)\<close>, and \<open>shift_links\<close> lists the
  passes. Every block of the range is available, so \<^verbatim>\<open>row_blocks[block_id]\<close> is the
  block variable of that id.
\<close>

definition shift_blocks :: "nat \<times> nat \<Rightarrow> nat list" where
  "shift_blocks = (\<lambda>(window, block_idx). [block_idx..<block_idx + window + 1])"

definition shift_links :: "nat \<Rightarrow> (nat \<times> nat) list \<Rightarrow> (var \<times> var) list" where
  "shift_links ta_idx windows =
     concat (map (\<lambda>(k, w). map (\<lambda>block_id. (BlockVar ta_idx block_id, ShiftVar ta_idx k))
                               (shift_blocks w))
                 (enumerate 0 windows))"

text \<open>The keys of a dictionary filled by the passes, in the order of first insertion.\<close>

definition first_keys :: "('k \<times> 'v) list \<Rightarrow> 'k list" where
  "first_keys links = rev (remdups (rev (map fst links)))"

definition block_var_to_shift_vars :: "(var \<times> var) list \<Rightarrow> (var \<times> var list) list" where
  "block_var_to_shift_vars links =
     map (\<lambda>block_var. (block_var, map snd (filter (\<lambda>(b, s). b = block_var) links)))
         (first_keys links)"

definition shift_implies_blocks :: "(var \<times> var) list \<Rightarrow> linear_constraint list" where
  "shift_implies_blocks links =
     map (\<lambda>(block_var, shift_var). expr_ge (Var block_var) (Var shift_var)) links"

definition block_implies_shift :: "(var \<times> var) list \<Rightarrow> linear_constraint list" where
  "block_implies_shift links =
     map (\<lambda>(block_var, shift_vars). expr_ge (solver_Sum (map Var shift_vars)) (Var block_var))
         (block_var_to_shift_vars links)"

text \<open>
  \<^verbatim>\<open>set(row_blocks.values()) - set(block_var_to_shift_vars)\<close>: the block variables
  that no generated shift covers are set to 0.
\<close>

definition orphan_blocks :: "nat \<Rightarrow> bool list \<Rightarrow> (var \<times> var) list \<Rightarrow> var list" where
  "orphan_blocks ta_idx availability links =
     filter (\<lambda>block_var. block_var \<notin> set (map fst (block_var_to_shift_vars links)))
            (map snd (row_blocks ta_idx availability))"

definition orphan_constraints :: "nat \<Rightarrow> bool list \<Rightarrow> (var \<times> var) list \<Rightarrow> linear_constraint list" where
  "orphan_constraints ta_idx availability links =
     map (\<lambda>orphan_block_var. expr_eq (Var orphan_block_var) (Num 0))
         (orphan_blocks ta_idx availability links)"

definition shift_sum :: "shift list \<Rightarrow> linear_expr" where
  "shift_sum shifts = solver_Sum (map (\<lambda>s. Var (shift_var s)) shifts)"

definition day_constraints :: "shift list \<Rightarrow> linear_constraint list" where
  "day_constraints shifts =
     map (\<lambda>day. expr_le (shift_sum (filter (\<lambda>s. shift_day s = day) shifts)) (Num 1))
         (first_keys (map (\<lambda>s. (shift_day s, shift_var s)) shifts))"

definition week_constraints :: "params \<Rightarrow> shift list \<Rightarrow> linear_constraint list" where
  "week_constraints p shifts =
     [expr_le (shift_sum shifts) (Num (max_oh_shifts_per_ta p)),
      expr_le (shift_sum (filter (\<lambda>s. shift_end s - shift_start s = int (max_oh_shift_length p))
                                 shifts)) (Num 1),
      expr_le (shift_sum (filter (\<lambda>s. shift_day s \<in> set weekend) shifts)) (Num 1)]"

text \<open>All constraints the office-hour cell submits for one assistant.\<close>

definition oh_constraints_ta :: "params \<Rightarrow> block list \<Rightarrow> nat \<Rightarrow> bool list \<Rightarrow> linear_constraint list" where
  "oh_constraints_ta p blocks ta_idx availability =
     (let links = shift_links ta_idx (shift_windows p blocks availability);
          shifts = row_shifts p blocks ta_idx availability
      in shift_implies_blocks links @ block_implies_shift links @
         orphan_constraints ta_idx availability links @
         day_constraints shifts @ week_constraints p shifts)"

definition oh_variables_ta :: "params \<Rightarrow> block list \<Rightarrow> nat \<Rightarrow> bool list \<Rightarrow> var list" where
  "oh_variables_ta p blocks ta_idx availability =
     map snd (row_blocks ta_idx availability) @
     map shift_var (row_shifts p blocks ta_idx availability)"

subsection \<open>Demand, recitations, commitments and the global minimum\<close>

text \<open>\<^verbatim>\<open>oh_blocks[block_id]\<close>: the block variables of a block, by assistant.\<close>

definition oh_blocks :: "ta list \<Rightarrow> nat \<Rightarrow> (nat \<times> var) list" where
  "oh_blocks roster block_id =
     map (\<lambda>ta_idx. (ta_idx, BlockVar ta_idx block_id))
         (filter (\<lambda>ta_idx. block_id \<in> set (np_where (oh_available (roster ! ta_idx))))
                 [0..<length roster])"

text \<open>
  \<^verbatim>\<open>solver.Add(demand_lb <= solver.Sum(ta_vars.values()) <= demand_ub)\<close>: a chained
  comparison. Its first comparison is \<^verbatim>\<open>demand_lb <= sum\<close>, which the sum answers
  as \<^verbatim>\<open>sum >= demand_lb\<close>.
\<close>

definition demand_constraint :: "ta list \<Rightarrow> nat \<Rightarrow> int \<times> int \<Rightarrow> linear_constraint" where
  "demand_constraint roster block_id =
     (\<lambda>(demand_lb, demand_ub).
        let ta_sum = solver_Sum (map (\<lambda>(ta_idx, x). Var x) (oh_blocks roster block_id))
        in py_and (expr_ge ta_sum (Num demand_lb)) (expr_le ta_sum (Num demand_ub)))"

definition demand_constraints :: "(int \<times> int) list \<Rightarrow> ta list \<Rightarrow> linear_constraint list" where
  "demand_constraints demand roster =
     map (\<lambda>(block_id, d). demand_constraint roster block_id d) (enumerate 0 demand)"

definition row_recitations :: "nat \<Rightarrow> bool list \<Rightarrow> (nat \<times> var) list" where
  "row_recitations ta_idx availability =
     map (\<lambda>recitation_id. (recitation_id, RecitationVar ta_idx recitation_id))
         (np_where availability)"

definition recitation_cap_constraint :: "params \<Rightarrow> nat \<Rightarrow> ta \<Rightarrow> linear_constraint" where
  "recitation_cap_constraint p ta_idx row =
     (let threshold = (if recitation_pref row \<ge> 4 then max_recitations_per_ta p else 1)
      in expr_le (solver_Sum (map (\<lambda>(recitation_id, x). Var x)
                                  (row_recitations ta_idx (recitation_available row))))
                 (Num threshold))"

definition recitation_assignments :: "ta list \<Rightarrow> nat \<Rightarrow> (nat \<times> var) list" where
  "recitation_assignments roster recitation_id =
     map (\<lambda>ta_idx. (ta_idx, RecitationVar ta_idx recitation_id))
         (filter (\<lambda>ta_idx. recitation_id \<in> set (np_where (recitation_available (roster ! ta_idx))))
                 [0..<length roster])"

text \<open>\<^verbatim>\<open>solver.Add(1 <= solver.Sum(ta_vars.values()) <= 2)\<close>, chained as well.\<close>

definition recitation_demand_constraints :: "nat \<Rightarrow> ta list \<Rightarrow> linear_constraint list" where
  "recitation_demand_constraints n_recitations roster =
     map (\<lambda>recitation_id.
            let ta_sum = solver_Sum (map (\<lambda>(ta_idx, x). Var x)
                                         (recitation_assignments roster recitation_id))
            in py_and (expr_ge ta_sum (Num 1)) (expr_le ta_sum (Num 2)))
         [0..<n_recitations]"

definition commitment_sum :: "params \<Rightarrow> nat \<Rightarrow> ta \<Rightarrow> linear_expr" where
  "commitment_sum p ta_idx row =
     (let commitment_vars =
            map (\<lambda>(block_id, x). (x, 1)) (row_blocks ta_idx (oh_available row)) @
            map (\<lambda>(recitation_id, x). (x, recitation_time_commitment p))
                (row_recitations ta_idx (recitation_available row))
      in solver_Sum (map (\<lambda>(x, weight). expr_scale weight (Var x)) commitment_vars))"

definition commitment_constraints :: "params \<Rightarrow> nat \<Rightarrow> ta \<Rightarrow> linear_constraint list" where
  "commitment_constraints p ta_idx row =
     expr_le (commitment_sum p ta_idx row) (Num (max_hours row - grading_time_commitment p)) #
     (if min_hours row > grading_time_commitment p
      then [expr_ge (commitment_sum p ta_idx row)
                    (Num (min_hours row - grading_time_commitment p))]
      else [])"

definition all_block_vars :: "nat \<Rightarrow> ta list \<Rightarrow> var list" where
  "all_block_vars n_blocks roster =
     concat (map (\<lambda>block_id. map snd (oh_blocks roster block_id)) [0..<n_blocks])"

definition global_minimum_constraint :: "params \<Rightarrow> nat \<Rightarrow> ta list \<Rightarrow> linear_constraint" where
  "global_minimum_constraint p n_blocks roster =
     expr_ge (solver_Sum (map Var (all_block_vars n_blocks roster))) (Num (min_total_ta_hours p))"

subsection \<open>Objective and buddy variables\<close>

definition oh_utility_obj_clauses :: "params \<Rightarrow> ta list \<Rightarrow> linear_expr list" where
  "oh_utility_obj_clauses p roster =
     concat (map (\<lambda>(ta_idx, row).
                    map (\<lambda>block_id.
                           let weight = (if oh_pref_available row ! block_id
                                         then oh_preferred_weight p else 1)
                           in expr_scale weight (Var (BlockVar ta_idx block_id)))
                        (np_where (oh_available row)))
                 (enumerate 0 roster))"

definition recitation_base_clauses :: "(ta \<Rightarrow> int) \<Rightarrow> ta list \<Rightarrow> linear_expr list" where
  "recitation_base_clauses ta_utility roster =
     concat (map (\<lambda>(ta_idx, row).
                    map (\<lambda>(recitation_id, x). expr_scale (ta_utility row) (Var x))
                        (row_recitations ta_idx (recitation_available row)))
                 (enumerate 0 roster))"

text \<open>
  The buddy loop. For every request and every recitation both assistants have a
  variable for, it reads \<^verbatim>\<open>requester_var\<close> and \<^verbatim>\<open>requested_var\<close>, creates
  \<^verbatim>\<open>buddy_var\<close> and submits
  \<^verbatim>\<open>requester_var + requester_var - 1 <= buddy_var <= requester_var + requester_var\<close>.
  \<open>buddy_links\<close> lists the passes as (buddy_var, requester_var, requested_var).
\<close>

definition buddy_links :: "ta list \<Rightarrow> (nat \<times> nat) list \<Rightarrow> (var \<times> var \<times> var) list" where
  "buddy_links roster buddies =
     concat (map (\<lambda>(k, requester_id, requested_id).
                    let requester_recitations =
                          np_where (recitation_available (roster ! requester_id));
                        requested_recitations =
                          np_where (recitation_available (roster ! requested_id))
                    in map (\<lambda>shared_recitation.
                              (BuddyVar k requester_id requested_id shared_recitation,
                               RecitationVar requester_id shared_recitation,
                               RecitationVar requested_id shared_recitation))
                           (filter (\<lambda>r. r \<in> set requested_recitations) requester_recitations))
                 (enumerate 0 buddies))"

definition buddy_constraint :: "var \<times> var \<times> var \<Rightarrow> linear_constraint" where
  "buddy_constraint =
     (\<lambda>(buddy_var, requester_var, requested_var).
        py_and (expr_le (expr_sub (expr_add (Var requester_var) (Var requester_var)) (Num 1))
                        (Var buddy_var))
               (expr_le (Var buddy_var) (expr_add (Var requester_var) (Var requester_var))))"

definition buddy_clauses :: "params \<Rightarrow> (var \<times> var \<times> var) list \<Rightarrow> linear_expr list" where
  "buddy_clauses p links =
     map (\<lambda>(buddy_var, requester_var, requested_var).
            expr_scale (recitation_one_way_buddy_weight p) (Var buddy_var)) links"

definition total_obj :: "params \<Rightarrow> (ta \<Rightarrow> int) \<Rightarrow> ta list \<Rightarrow> (nat \<times> nat) list \<Rightarrow> linear_expr" where
  "total_obj p ta_utility roster buddies =
     (let oh_utility_obj = solver_Sum (oh_utility_obj_clauses p roster);
          recitation_utility_obj =
            solver_Sum (recitation_base_clauses ta_utility roster @
                        buddy_clauses p (buddy_links roster buddies))
      in expr_add oh_utility_obj (expr_scale (alpha p) recitation_utility_obj))"

subsection \<open>The constructed program\<close>

text \<open>
  The cells in the order of the notebook. The program is built from the block index
  (the enumeration of the demand windows), the number of recitations
  \<^verbatim>\<open>len(recitations)\<close>, the utility per assistant, the cleaned roster and the buddy
  requests by name. The office-hour cell raises \<^verbatim>\<open>NotImplementedError\<close> for its first
  assistant when \<^verbatim>\<open>one_shift_per_day\<close> is off. Three cells are not part of this
  development: the two cells that pin assistants of one semester, by row number, to
  fixed recitations and blocks, and the cell that forbids an office-hour block and a
  recitation that overlap in time (recitation times are floating-point hours). Each of
  them only submits further constraints, so what holds in every feasible solution of
  the program below holds in every feasible solution with them.
\<close>

definition model_variables ::
    "params \<Rightarrow> block list \<Rightarrow> ta list \<Rightarrow> (nat \<times> nat) list \<Rightarrow> var list" where
  "model_variables p blocks roster buddies =
     concat (map (\<lambda>(ta_idx, row). oh_variables_ta p blocks ta_idx (oh_available row))
                 (enumerate 0 roster)) @
     concat (map (\<lambda>(ta_idx, row). map snd (row_recitations ta_idx (recitation_available row)))
                 (enumerate 0 roster)) @
     map fst (buddy_links roster buddies)"

definition model_constraints ::
    "params \<Rightarrow> (block \<times> (int \<times> int)) list \<Rightarrow> nat \<Rightarrow> ta list \<Rightarrow> (nat \<times> nat) list
       \<Rightarrow> linear_constraint list" where
  "model_constraints p block_index n_recitations roster buddies =
     concat (map (\<lambda>(ta_idx, row).
                    oh_constraints_ta p (map fst block_index) ta_idx (oh_available row))
                 (enumerate 0 roster)) @
     demand_constraints (map snd block_index) roster @
     map (\<lambda>(ta_idx, row). recitation_cap_constraint p ta_idx row) (enumerate 0 roster) @
     recitation_demand_constraints n_recitations roster @
     concat (map (\<lambda>(ta_idx, row). commitment_constraints p ta_idx row) (enumerate 0 roster)) @
     [global_minimum_constraint p (length block_index) roster] @
     map buddy_constraint (buddy_links roster buddies)"

definition ip_model ::
    "params \<Rightarrow> (block \<times> (int \<times> int)) list \<Rightarrow> nat \<Rightarrow> (ta \<Rightarrow> int) \<Rightarrow> ta list
       \<Rightarrow> (string \<times> string) list \<Rightarrow> error + model" where
  "ip_model p block_index n_recitations ta_utility roster ta_buddies =
     (let buddies = resolve_buddies roster ta_buddies
      in if \<not> one_shift_per_day p \<and> roster \<noteq> [] then Inl NotImplementedError
         else Inr \<lparr> variables = model_variables p (map fst block_index) roster buddies,
                    constraints = model_constraints p block_index n_recitations roster buddies,
                    objective = total_obj p ta_utility roster buddies \<rparr>)"

text \<open>
  The decoder of office hours: the pairs (block id, assistant) whose variable has a
  solution value above 0.5.
\<close>

definition decode_oh :: "(var \<Rightarrow> int) \<Rightarrow> nat \<Rightarrow> ta list \<Rightarrow> (nat \<times> nat) list" where
  "decode_oh v n_blocks roster =
     concat (map (\<lambda>block_id.
                    map (\<lambda>(ta_id, ta_var). (block_id, ta_id))
                        (filter (\<lambda>(ta_id, ta_var). 1 < 2 * v ta_var) (oh_blocks roster block_id)))
                 [0..<n_blocks])"

subsection \<open>Quantities the properties speak of\<close>

text \<open>
  The weekly commitment of an assistant under a solution: 1 per selected office-hour
  block and \<^verbatim>\<open>recitation_time_commitment\<close> per selected recitation; the number of
  recitations an assistant leads; and the assistants a variable belongs to.
\<close>

definition weighted_commitment :: "params \<Rightarrow> (var \<Rightarrow> int) \<Rightarrow> nat \<Rightarrow> ta \<Rightarrow> int" where
  "weighted_commitment p v ta_idx row =
     sum_list (map (\<lambda>block_id. v (BlockVar ta_idx block_id)) (np_where (oh_available row))) +
     recitation_time_commitment p *
       sum_list (map (\<lambda>recitation_id. v (RecitationVar ta_idx recitation_id))
                     (np_where (recitation_available row)))"

definition recitations_led :: "(var \<Rightarrow> int) \<Rightarrow> nat \<Rightarrow> ta \<Rightarrow> int" where
  "recitations_led v ta_idx row =
     sum_list (map (\<lambda>recitation_id. v (RecitationVar ta_idx recitation_id))
                   (np_where (recitation_available row)))"

fun var_tas :: "var \<Rightarrow> nat list" where
  "var_tas (BlockVar ta_idx block_id) = [ta_idx]"
| "var_tas (ShiftVar ta_idx k) = [ta_idx]"
| "var_tas (RecitationVar ta_idx recitation_id) = [ta_idx]"
| "var_tas (BuddyVar k requester_id requested_id recitation_id) = [requester_id, requested_id]"

text \<open>
  The assumption the shift loop states in a comment, \<^verbatim>\<open>within a day, blocks are
  contiguous\<close>: two block ids of the same day enclose only blocks of that day, and the
  later block starts as many hours after the earlier one as their ids differ.
\<close>

definition contiguous_within_day :: "block list \<Rightarrow> bool" where
  "contiguous_within_day blocks =
     list_all (\<lambda>j.
        list_all (\<lambda>i.
           block_day (blocks ! i) = block_day (blocks ! j) \<longrightarrow>
             block_start (blocks ! j) = block_start (blocks ! i) + int (j - i) \<and>
             list_all (\<lambda>k. block_day (blocks ! k) = block_day (blocks ! i)) [i..<j])
          [0..<j])
       [0..<length blocks]"

subsection \<open>Small instances\<close>

text \<open>Inputs on which the theorems below are run.\<close>

definition week_bounds :: "demand_window list" where
  "week_bounds = [((''Mon'', 10, 11), (0, 1)), ((''Tue'', 21, 21), (0, 1))]"

definition week_index :: "(block \<times> (int \<times> int)) list" where
  "week_index = enumerate_blocks week_bounds"

definition small_params :: params where
  "small_params = notebook_params\<lparr>min_total_ta_hours := 2\<rparr>"

definition alice :: ta where
  "alice = \<lparr> name = ''alice'', min_hours = 3, max_hours = 6, recitation_pref = 4,
             oh_available = [True, True, True], oh_pref_available = [True, False, False],
             recitation_available = [True], returning = True \<rparr>"

definition bob :: ta where
  "bob = \<lparr> name = ''bob'', min_hours = 0, max_hours = 4, recitation_pref = 0,
           oh_available = [False, False, True], oh_pref_available = [False, False, False],
           recitation_available = [False], returning = False \<rparr>"

definition carol :: ta where
  "carol = \<lparr> name = ''carol'', min_hours = 0, max_hours = 5, recitation_pref = 2,
             oh_available = [False, False, False], oh_pref_available = [False, False, False],
             recitation_available = [True], returning = False \<rparr>"

text \<open>
  A frame of ten rows as it stands before the cleanup cells: the rows 3 to 9 ask for no
  more hours than grading takes.
\<close>

definition small_df :: "ta list" where
  "small_df = [alice, bob, carol\<lparr>max_hours := 1\<rparr>] @ replicate 7 (bob\<lparr>max_hours := 2\<rparr>)"

definition unit_utility :: "ta \<Rightarrow> int" where
  "unit_utility row = 1"

definition small_schedule :: "var \<Rightarrow> int" where
  "small_schedule x =
     (if x \<in> {BlockVar 0 0, BlockVar 0 1, ShiftVar 0 2, RecitationVar 0 0} then 1 else 0)"

text \<open>One block that asks for exactly one assistant, and one assistant who may take it.\<close>

definition tuesday_index :: "(block \<times> (int \<times> int)) list" where
  "tuesday_index = enumerate_blocks [((''Tue'', 10, 10), (1, 1))]"

definition idle_params :: params where
  "idle_params = notebook_params\<lparr>min_total_ta_hours := 0\<rparr>"

definition dave :: ta where
  "dave = \<lparr> name = ''dave'', min_hours = 0, max_hours = 6, recitation_pref = 5,
            oh_available = [True], oh_pref_available = [False],
            recitation_available = [], returning = False \<rparr>"

definition nobody_works :: "var \<Rightarrow> int" where
  "nobody_works x = 0"

text \<open>
  One recitation, no office hours, and a request of erin for frank. Frank is available
  for the recitation, and his hours leave no room for it.
\<close>

definition buddy_params :: params where
  "buddy_params = notebook_params\<lparr>min_total_ta_hours := 0\<rparr>"

definition erin :: ta where
  "erin = \<lparr> name = ''erin'', min_hours = 0, max_hours = 6, recitation_pref = 5,
            oh_available = [], oh_pref_available = [],
            recitation_available = [True], returning = False \<rparr>"

definition frank :: ta where
  "frank = \<lparr> name = ''frank'', min_hours = 0, max_hours = 3, recitation_pref = 1,
             oh_available = [], oh_pref_available = [],
             recitation_available = [True], returning = False \<rparr>"

definition erin_alone :: "var \<Rightarrow> int" where
  "erin_alone x = (if x \<in> {RecitationVar 0 0, BuddyVar 0 0 1 0} then 1 else 0)"

text \<open>An assistant whose hours do not exceed the grading time.\<close>

definition gail :: ta where
  "gail = bob\<lparr>name := ''gail'', max_hours := 2\<rparr>"

text \<open>The three late hours of a Monday.\<close>

definition late_blocks :: "block list" where
  "late_blocks = oh_block_id_to_block [((''Mon'', 21, 23), (1, 2))]"

text \<open>
  Two rows that break an invariant of the input: zed has willingness 0 and a recitation
  marked, hal prefers a block he is not available for.
\<close>

definition zed :: ta where
  "zed = bob\<lparr>recitation_available := [True]\<rparr>"

definition hal :: ta where
  "hal = \<lparr> name = ''hal'', min_hours = 0, max_hours = 10, recitation_pref = 0,
           oh_available = [False], oh_pref_available = [True],
           recitation_available = [False], returning = False \<rparr>"

section \<open>Properties of the solver interface and of the program's parts\<close>

lemma solution_value_Var [simp]: "solution_value v (Var x) = v x"
  by (simp add: Var_def)

lemma solution_value_Num [simp]: "solution_value v (Num c) = c"
  by (simp add: Num_def)

lemma solution_value_add [simp]:
  "solution_value v (expr_add e f) = solution_value v e + solution_value v f"
  by (cases e; cases f) simp

lemma solution_value_scale [simp]:
  "solution_value v (expr_scale k e) = k * solution_value v e"
proof (cases e)
  case (LinearExpr ts c)
  have "sum_list (map ((\<lambda>(a, x). a * v x) \<circ> (\<lambda>(a, x). (k * a, x))) ts)
          = k * sum_list (map (\<lambda>(a, x). a * v x) ts)"
    by (induction ts) (auto simp: algebra_simps)
  with LinearExpr show ?thesis by (simp add: algebra_simps)
qed

lemma solution_value_sub [simp]:
  "solution_value v (expr_sub e f) = solution_value v e - solution_value v f"
  by (simp add: expr_sub_def)

lemma solution_value_Sum [simp]:
  "solution_value v (solver_Sum es) = sum_list (map (solution_value v) es)"
  by (induction es) (simp_all add: solver_Sum_def)

lemma satisfied_le [simp]:
  "satisfied v (expr_le e f) \<longleftrightarrow> solution_value v e \<le> solution_value v f"
  by (simp add: expr_le_def)

lemma satisfied_ge [simp]:
  "satisfied v (expr_ge e f) \<longleftrightarrow> solution_value v f \<le> solution_value v e"
  by (simp add: expr_ge_def)

lemma satisfied_eq [simp]:
  "satisfied v (expr_eq e f) \<longleftrightarrow> solution_value v e = solution_value v f"
  by (auto simp: expr_eq_def)

lemma feasible_variable:
  "feasible m v \<Longrightarrow> x \<in> set (variables m) \<Longrightarrow> 0 \<le> v x \<and> v x \<le> 1"
  by (simp add: feasible_def list_all_iff)

lemma feasible_constraint:
  "feasible m v \<Longrightarrow> c \<in> set (constraints m) \<Longrightarrow> satisfied v c"
  by (simp add: feasible_def list_all_iff)

lemma in_np_where [simp]: "i \<in> set (np_where a) \<longleftrightarrow> i < length a \<and> a ! i"
  by (auto simp: np_where_def)

lemma ip_model_Inr:
  "ip_model p block_index n_recitations ta_utility roster ta_buddies = Inr m \<Longrightarrow>
     variables m = model_variables p (map fst block_index) roster (resolve_buddies roster ta_buddies) \<and>
     constraints m = model_constraints p block_index n_recitations roster (resolve_buddies roster ta_buddies) \<and>
     objective m = total_obj p ta_utility roster (resolve_buddies roster ta_buddies)"
  by (auto simp: ip_model_def Let_def split: if_splits)

lemma in_concat_enumerate:
  "y \<in> set (concat (map (\<lambda>(i, x). f i x) (enumerate 0 xs))) \<longleftrightarrow>
     (\<exists>i<length xs. y \<in> set (f i (xs ! i)))"
  by (force simp: in_set_enumerate_eq)

lemma in_map_enumerate:
  "y \<in> set (map (\<lambda>(i, x). f i x) (enumerate 0 xs)) \<longleftrightarrow> (\<exists>i<length xs. y = f i (xs ! i))"
  by (force simp: in_set_enumerate_eq)

lemma BlockVar_in_oh_variables_ta:
  "BlockVar t b \<in> set (oh_variables_ta p blocks i a) \<longleftrightarrow> t = i \<and> b < length a \<and> a ! b"
  by (auto simp: oh_variables_ta_def row_blocks_def row_shifts_def make_shift_def
        split: prod.splits)

lemma BlockVar_in_model_variables:
  "BlockVar t b \<in> set (model_variables p blocks roster buddies) \<longleftrightarrow>
     t < length roster \<and> b < length (oh_available (roster ! t)) \<and> oh_available (roster ! t) ! b"
proof -
  have "BlockVar t b \<notin> set (map fst (buddy_links roster buddies))"
    by (auto simp: buddy_links_def Let_def in_set_enumerate_eq)
  moreover have "\<And>i. BlockVar t b \<notin> set (map snd (row_recitations i (recitation_available (roster ! i))))"
    by (auto simp: row_recitations_def)
  ultimately show ?thesis
    unfolding model_variables_def
    by (auto simp: in_concat_enumerate BlockVar_in_oh_variables_ta simp del: set_concat)
qed

lemma satisfied_py_and [simp]: "satisfied v (py_and c d) \<longleftrightarrow> satisfied v d"
  by (simp add: py_and_def)

lemma in_model_constraints_enumerate:
  assumes "t < length roster"
  shows "recitation_cap_constraint p t (roster ! t) \<in> set (model_constraints p block_index n roster buddies)"
    and "set (commitment_constraints p t (roster ! t)) \<subseteq> set (model_constraints p block_index n roster buddies)"
proof -
  have "recitation_cap_constraint p t (roster ! t)
          \<in> set (map (\<lambda>(ta_idx, row). recitation_cap_constraint p ta_idx row) (enumerate 0 roster))"
    using assms unfolding in_map_enumerate by blast
  then show "recitation_cap_constraint p t (roster ! t) \<in> set (model_constraints p block_index n roster buddies)"
    unfolding model_constraints_def by simp
  show "set (commitment_constraints p t (roster ! t)) \<subseteq> set (model_constraints p block_index n roster buddies)"
  proof
    fix c assume "c \<in> set (commitment_constraints p t (roster ! t))"
    with assms have "c \<in> set (concat (map (\<lambda>(ta_idx, row). commitment_constraints p ta_idx row)
                       (enumerate 0 roster)))"
      unfolding in_concat_enumerate by blast
    then show "c \<in> set (model_constraints p block_index n roster buddies)"
      unfolding model_constraints_def by simp
  qed
qed

lemma shift_var_make_shift [simp]: "shift_var (make_shift blocks t x) = ShiftVar t (fst x)"
  by (simp add: make_shift_def split_beta)

lemma shift_vars_row_shifts:
  "map shift_var (row_shifts p blocks t a) = map (ShiftVar t) [0..<length (shift_windows p blocks a)]"
  unfolding row_shifts_def by (rule nth_equalityI) (simp_all add: nth_enumerate_eq)

lemma ip_model_builds:
  "one_shift_per_day p \<Longrightarrow>
     \<exists>m. ip_model p block_index n_recitations ta_utility roster ta_buddies = Inr m"
  by (simp add: ip_model_def Let_def)

lemma resolve_buddies_Nil [simp]: "resolve_buddies roster [] = []"
  by (simp add: resolve_buddies_def)

section \<open>Properties of the cleanup cells\<close>

lemma np_sum_0_iff: "np_sum a = 0 \<longleftrightarrow> np_where a = []"
  by (auto simp: np_sum_def np_where_def filter_empty_conv in_set_conv_nth)

lemma assert_no_recitation_Inr:
  "assert_no_recitation df = Inr u \<longleftrightarrow>
     (\<exists>row\<in>set df. recitation_pref row = 0) \<and>
     (\<forall>row\<in>set df. recitation_pref row = 0 \<longrightarrow> np_where (recitation_available row) = [])"
  by (auto simp: assert_no_recitation_def Let_def list_all_iff np_sum_0_iff filter_empty_conv)

lemma in_set_update: "x \<in> set (xs[i := y]) \<Longrightarrow> x = y \<or> x \<in> set xs"
  using set_update_subset_insert[of xs i y] by auto

lemma special_cases_fields:
  assumes "special_cases df = Inr df'" and "row \<in> set df'"
  shows "\<exists>row0\<in>set df. recitation_pref row = recitation_pref row0 \<and>
           recitation_available row = recitation_available row0"
proof -
  from assms(1) have len: "10 \<le> length df"
    and df': "df' = (df[2 := (df ! 2)\<lparr>max_hours := 5\<rparr>])
                      [9 := (df ! 9)\<lparr>oh_available := oh_pref_available (df ! 9)\<rparr>]"
    by (auto simp: special_cases_def Let_def split: if_splits)
  from assms(2) df' have "row = (df ! 9)\<lparr>oh_available := oh_pref_available (df ! 9)\<rparr> \<or>
      row = (df ! 2)\<lparr>max_hours := 5\<rparr> \<or> row \<in> set df"
    by (auto dest!: in_set_update)
  moreover have "df ! 9 \<in> set df" "df ! 2 \<in> set df" using len by simp_all
  ultimately show ?thesis by force
qed

lemma cleanup_no_recitation:
  assumes "cleanup p df = Inr roster" and "row \<in> set roster" and "recitation_pref row = 0"
  shows "np_where (recitation_available row) = []"
proof -
  from assms(1) obtain df' where a: "assert_no_recitation df = Inr ()"
    and s: "special_cases df = Inr df'" and r: "roster = filter_roster p df'"
    by (auto simp: cleanup_def split: sum.splits)
  from r assms(2) have "row \<in> set df'" by (simp add: filter_roster_def)
  from special_cases_fields[OF s this] obtain row0 where "row0 \<in> set df"
    "recitation_pref row = recitation_pref row0" "recitation_available row = recitation_available row0"
    by blast
  with a assms(3) show ?thesis unfolding assert_no_recitation_Inr by auto
qed

lemma assert_no_recitation_Inl:
  "assert_no_recitation df = Inl e \<longleftrightarrow>
     e = AttributeError \<and> (\<forall>row\<in>set df. recitation_pref row \<noteq> 0) \<or>
     e = AssertionError \<and>
     (\<exists>row\<in>set df. recitation_pref row = 0 \<and> np_sum (recitation_available row) \<noteq> 0)"
  by (auto simp: assert_no_recitation_def Let_def list_all_iff filter_empty_conv)

section \<open>The small instance\<close>

lemma week_index_eval:
  "week_index = [(Block ''Mon'' 10 11, (0, 1)), (Block ''Mon'' 11 12, (0, 1)),
                 (Block ''Tue'' 21 22, (0, 1))]"
  by code_simp

lemma small_model:
  "ip_model small_params week_index 1 unit_utility [alice, bob, carol] [] =
     Inr \<lparr> variables = model_variables small_params (map fst week_index) [alice, bob, carol] [],
            constraints = model_constraints small_params week_index 1 [alice, bob, carol] [],
            objective = total_obj small_params unit_utility [alice, bob, carol] [] \<rparr>"
  by (simp add: ip_model_def resolve_buddies_def small_params_def notebook_params_def)

lemma small_schedule_feasible:
  "feasible \<lparr> variables = model_variables small_params (map fst week_index) [alice, bob, carol] [],
            constraints = model_constraints small_params week_index 1 [alice, bob, carol] [],
            objective = total_obj small_params unit_utility [alice, bob, carol] [] \<rparr> small_schedule"
  unfolding feasible_def by code_simp

lemma small_model_feasible:
  "\<exists>m. ip_model small_params week_index 1 unit_utility [alice, bob, carol] [] = Inr m \<and>
       feasible m small_schedule"
  using small_model small_schedule_feasible by simp

lemma alice_windows:
  "shift_windows small_params (map fst week_index) (oh_available alice) = [(0, 0), (0, 1), (1, 0)]"
  by code_simp

lemma small_cleanup: "cleanup small_params small_df = Inr [alice, bob, carol]"
  by code_simp

lemma week_blocks:
  "oh_block_id_to_block week_bounds = [Block ''Mon'' 10 11, Block ''Mon'' 11 12, Block ''Tue'' 21 22]"
  by code_simp

lemma week_contiguous: "contiguous_within_day (oh_block_id_to_block week_bounds)"
  by code_simp

section \<open>Block variables and availability\<close>

lemma in_decode_oh:
  "(b, t) \<in> set (decode_oh v n roster) \<Longrightarrow>
     t < length roster \<and> b < length (oh_available (roster ! t)) \<and> oh_available (roster ! t) ! b"
  by (auto simp: decode_oh_def oh_blocks_def)

text \<open>
  Claim C3. For every assistant and every block of the block universe, the program has
  a block variable for the pair exactly when the assistant's availability array marks
  the block; the decoder never reports a pair the array does not mark.
\<close>

theorem block_variable_iff_available:
  assumes "ip_model p block_index n_recitations ta_utility roster ta_buddies = Inr m"
    and "ta_idx < length roster"
    and "length (oh_available (roster ! ta_idx)) = length block_index"
    and "block_id < length block_index"
  shows "(BlockVar ta_idx block_id \<in> set (variables m) \<longleftrightarrow>
            oh_available (roster ! ta_idx) ! block_id) \<and>
         ((block_id, ta_idx) \<in> set (decode_oh v (length block_index) roster) \<longrightarrow>
            oh_available (roster ! ta_idx) ! block_id)"
  using assms ip_model_Inr[OF assms(1)]
  by (auto simp: BlockVar_in_model_variables dest: in_decode_oh)

theorem block_variable_iff_available_witness:
  "\<exists>m. ip_model small_params week_index 1 unit_utility [alice, bob, carol] [] = Inr m \<and>
       BlockVar 1 2 \<in> set (variables m) \<and> BlockVar 1 0 \<notin> set (variables m) \<and>
       (0, 1) \<notin> set (decode_oh small_schedule (length week_index) [alice, bob, carol])"
proof -
  obtain m where m: "ip_model small_params week_index 1 unit_utility [alice, bob, carol] [] = Inr m"
    using small_model by blast
  have t: "(1::nat) < length [alice, bob, carol]" by simp
  have len: "length (oh_available ([alice, bob, carol] ! 1)) = length week_index"
    by (simp add: bob_def week_index_eval)
  have b2: "(2::nat) < length week_index" and b0: "(0::nat) < length week_index"
    by (simp_all add: week_index_eval)
  have av: "oh_available ([alice, bob, carol] ! 1) ! 2" "\<not> oh_available ([alice, bob, carol] ! 1) ! 0"
    by (simp_all add: bob_def)
  from block_variable_iff_available[OF m t len b2, of small_schedule] av
  have "BlockVar 1 2 \<in> set (variables m)" by simp
  moreover from block_variable_iff_available[OF m t len b0, of small_schedule] av
  have "BlockVar 1 0 \<notin> set (variables m)"
    "(0, 1) \<notin> set (decode_oh small_schedule (length week_index) [alice, bob, carol])" by auto
  ultimately show ?thesis using m by blast
qed

section \<open>Blocks and the shifts that cover them\<close>

lemma sum_list_ge_1_ex:
  fixes f :: "'a \<Rightarrow> int"
  shows "1 \<le> sum_list (map f xs) \<Longrightarrow> \<exists>x\<in>set xs. 1 \<le> f x"
proof (induction xs)
  case Nil
  then show ?case by simp
next
  case (Cons a xs)
  show ?case
  proof (cases "1 \<le> f a")
    case True
    then show ?thesis by simp
  next
    case False
    with Cons.prems have "1 \<le> sum_list (map f xs)" by simp
    with Cons.IH show ?thesis by auto
  qed
qed

lemma in_shift_links:
  "(bv, sv) \<in> set (shift_links t ws) \<longleftrightarrow>
     (\<exists>k<length ws. \<exists>b\<in>set (shift_blocks (ws ! k)). bv = BlockVar t b \<and> sv = ShiftVar t k)"
  unfolding shift_links_def in_concat_enumerate by auto

lemma set_first_keys [simp]: "set (first_keys links) = fst ` set links"
  by (simp add: first_keys_def)

lemma covering_shift_vars:
  "set (map snd (filter (\<lambda>(b, s). b = BlockVar t b0) (shift_links t ws))) =
     {ShiftVar t k | k. k < length ws \<and> b0 \<in> set (shift_blocks (ws ! k))}"
proof -
  have "sv \<in> set (map snd (filter (\<lambda>(b, s). b = BlockVar t b0) (shift_links t ws))) \<longleftrightarrow>
          (BlockVar t b0, sv) \<in> set (shift_links t ws)" for sv
    by force
  then show ?thesis
    unfolding in_shift_links by blast
qed

lemma covered_constraint:
  assumes "bv \<in> fst ` set links" and "list_all (satisfied v) (block_implies_shift links)"
  shows "v bv \<le> sum_list (map v (map snd (filter (\<lambda>(b, s). b = bv) links)))"
proof -
  have "(bv, map snd (filter (\<lambda>(b, s). b = bv) links)) \<in> set (block_var_to_shift_vars links)"
    using assms(1) by (simp add: block_var_to_shift_vars_def)
  then have "expr_ge (solver_Sum (map Var (map snd (filter (\<lambda>(b, s). b = bv) links)))) (Var bv)
               \<in> set (block_implies_shift links)"
    unfolding block_implies_shift_def by force
  with assms(2) have "satisfied v (expr_ge (solver_Sum (map Var (map snd (filter (\<lambda>(b, s). b = bv) links)))) (Var bv))"
    unfolding list_all_iff by blast
  then show ?thesis by (simp add: o_def)
qed

lemma orphan_constraint:
  assumes "b < length a" "a ! b" and "BlockVar t b \<notin> fst ` set links"
    and "list_all (satisfied v) (orphan_constraints t a links)"
  shows "v (BlockVar t b) = 0"
proof -
  have "BlockVar t b \<in> set (orphan_blocks t a links)"
    using assms(1-3) by (simp add: orphan_blocks_def row_blocks_def block_var_to_shift_vars_def o_def)
  then have "expr_eq (Var (BlockVar t b)) (Num 0) \<in> set (orphan_constraints t a links)"
    unfolding orphan_constraints_def by simp
  with assms(4) have "satisfied v (expr_eq (Var (BlockVar t b)) (Num 0))"
    unfolding list_all_iff by blast
  then show ?thesis by simp
qed

lemma oh_constraints_in_model:
  assumes "t < length roster"
  shows "set (oh_constraints_ta p (map fst block_index) t (oh_available (roster ! t)))
           \<subseteq> set (model_constraints p block_index n roster buddies)"
proof
  fix c assume "c \<in> set (oh_constraints_ta p (map fst block_index) t (oh_available (roster ! t)))"
  with assms have "c \<in> set (concat (map (\<lambda>(ta_idx, row).
                    oh_constraints_ta p (map fst block_index) ta_idx (oh_available row))
                 (enumerate 0 roster)))"
    unfolding in_concat_enumerate by blast
  then show "c \<in> set (model_constraints p block_index n roster buddies)"
    unfolding model_constraints_def by simp
qed

lemma feasible_oh_constraints:
  assumes "ip_model p block_index n ta_utility roster ta_buddies = Inr m"
    and "feasible m v" and "t < length roster"
  shows "list_all (satisfied v)
           (oh_constraints_ta p (map fst block_index) t (oh_available (roster ! t)))"
  using oh_constraints_in_model[OF assms(3), of p block_index n "resolve_buddies roster ta_buddies"]
    ip_model_Inr[OF assms(1)] assms(2)
  unfolding feasible_def list_all_iff by auto

lemma ShiftVar_in_model_variables:
  assumes "t < length roster" and "k < length (shift_windows p blocks (oh_available (roster ! t)))"
  shows "ShiftVar t k \<in> set (model_variables p blocks roster buddies)"
proof -
  have "ShiftVar t k \<in> set (map shift_var (row_shifts p blocks t (oh_available (roster ! t))))"
    using assms(2) by (simp add: shift_vars_row_shifts)
  then have "ShiftVar t k \<in> set (oh_variables_ta p blocks t (oh_available (roster ! t)))"
    by (simp add: oh_variables_ta_def)
  with assms(1) have "ShiftVar t k \<in> set (concat (map (\<lambda>(ta_idx, row).
       oh_variables_ta p blocks ta_idx (oh_available row)) (enumerate 0 roster)))"
    unfolding in_concat_enumerate by blast
  then show ?thesis unfolding model_variables_def by simp
qed

text \<open>
  Claim C4. In every feasible solution of the constructed program, for every assistant,
  a block variable with value 1 has a generated shift that contains the block and whose
  variable has value 1, and a block variable that no generated shift covers has value 0.
\<close>

theorem selected_block_has_selected_shift:
  assumes m: "ip_model p block_index n_recitations ta_utility roster ta_buddies = Inr m"
    and v: "feasible m v"
    and t: "ta_idx < length roster"
    and b: "block_id < length (oh_available (roster ! ta_idx))"
           "oh_available (roster ! ta_idx) ! block_id"
  shows "(v (BlockVar ta_idx block_id) = 1 \<longrightarrow>
            (\<exists>k < length (shift_windows p (map fst block_index) (oh_available (roster ! ta_idx))).
               block_id \<in> set (shift_blocks
                  (shift_windows p (map fst block_index) (oh_available (roster ! ta_idx)) ! k)) \<and>
               v (ShiftVar ta_idx k) = 1)) \<and>
         ((\<forall>k < length (shift_windows p (map fst block_index) (oh_available (roster ! ta_idx))).
             block_id \<notin> set (shift_blocks
                  (shift_windows p (map fst block_index) (oh_available (roster ! ta_idx)) ! k))) \<longrightarrow>
            v (BlockVar ta_idx block_id) = 0)"
proof -
  let ?a = "oh_available (roster ! ta_idx)"
  let ?ws = "shift_windows p (map fst block_index) ?a"
  let ?links = "shift_links ta_idx ?ws"
  let ?bv = "BlockVar ta_idx block_id"
  have all: "list_all (satisfied v) (oh_constraints_ta p (map fst block_index) ta_idx ?a)"
    by (rule feasible_oh_constraints[OF m v t])
  then have conv: "list_all (satisfied v) (block_implies_shift ?links)"
    and orph: "list_all (satisfied v) (orphan_constraints ta_idx ?a ?links)"
    by (simp_all add: oh_constraints_ta_def Let_def)
  have "?bv \<in> fst ` set ?links \<longleftrightarrow> (\<exists>sv. (?bv, sv) \<in> set ?links)"
    by force
  then have key: "?bv \<in> fst ` set ?links \<longleftrightarrow> (\<exists>k<length ?ws. block_id \<in> set (shift_blocks (?ws ! k)))"
    unfolding in_shift_links by auto
  have vars: "variables m = model_variables p (map fst block_index) roster
                (resolve_buddies roster ta_buddies)"
    using ip_model_Inr[OF m] by simp
  have first: "\<exists>k<length ?ws. block_id \<in> set (shift_blocks (?ws ! k)) \<and> v (ShiftVar ta_idx k) = 1"
    if one: "v ?bv = 1"
  proof -
    have "?bv \<in> fst ` set ?links"
    proof (rule ccontr)
      assume "?bv \<notin> fst ` set ?links"
      from orphan_constraint[OF b this orph] one show False by simp
    qed
    from covered_constraint[OF this conv] one
    have "1 \<le> sum_list (map v (map snd (filter (\<lambda>(b, s). b = ?bv) ?links)))" by simp
    from sum_list_ge_1_ex[OF this]
    obtain sv where sv: "sv \<in> set (map snd (filter (\<lambda>(b, s). b = ?bv) ?links))" and "1 \<le> v sv"
      by blast
    from sv obtain k where k: "k < length ?ws" "block_id \<in> set (shift_blocks (?ws ! k))"
      and eq: "sv = ShiftVar ta_idx k"
      unfolding covering_shift_vars by blast
    have "ShiftVar ta_idx k \<in> set (variables m)"
      unfolding vars by (rule ShiftVar_in_model_variables[OF t k(1)])
    from feasible_variable[OF v this] \<open>1 \<le> v sv\<close> eq have "v (ShiftVar ta_idx k) = 1" by simp
    with k show ?thesis by blast
  qed
  have second: "v ?bv = 0" if "\<forall>k<length ?ws. block_id \<notin> set (shift_blocks (?ws ! k))"
  proof -
    from that key have "?bv \<notin> fst ` set ?links" by blast
    from orphan_constraint[OF b this orph] show ?thesis .
  qed
  from first second show ?thesis by blast
qed

theorem selected_block_has_selected_shift_witness:
  "\<exists>m. ip_model small_params week_index 1 unit_utility [alice, bob, carol] [] = Inr m \<and>
       feasible m small_schedule \<and>
       small_schedule (BlockVar 0 0) = 1 \<and>
       (\<exists>k < length (shift_windows small_params (map fst week_index) (oh_available alice)).
          0 \<in> set (shift_blocks
                 (shift_windows small_params (map fst week_index) (oh_available alice) ! k)) \<and>
          small_schedule (ShiftVar 0 k) = 1) \<and>
       small_schedule (BlockVar 0 2) = 0"
proof -
  obtain m where m: "ip_model small_params week_index 1 unit_utility [alice, bob, carol] [] = Inr m"
    and v: "feasible m small_schedule"
    using small_model_feasible by blast
  have t: "(0::nat) < length [alice, bob, carol]" by simp
  have a: "oh_available ([alice, bob, carol] ! 0) = oh_available alice" by simp
  have b0: "0 < length (oh_available ([alice, bob, carol] ! 0))" "oh_available ([alice, bob, carol] ! 0) ! 0"
    and b2: "2 < length (oh_available ([alice, bob, carol] ! 0))" "oh_available ([alice, bob, carol] ! 0) ! 2"
    by (simp_all add: alice_def)
  have one: "small_schedule (BlockVar 0 0) = 1"
    by (simp add: small_schedule_def)
  have orphan: "\<forall>k < length (shift_windows small_params (map fst week_index) (oh_available alice)).
           2 \<notin> set (shift_blocks
                 (shift_windows small_params (map fst week_index) (oh_available alice) ! k))"
    unfolding alice_windows by (simp add: shift_blocks_def less_Suc_eq nth_Cons')
  from selected_block_has_selected_shift[OF m v t b0] one
  have "\<exists>k < length (shift_windows small_params (map fst week_index) (oh_available alice)).
          0 \<in> set (shift_blocks
                 (shift_windows small_params (map fst week_index) (oh_available alice) ! k)) \<and>
          small_schedule (ShiftVar 0 k) = 1"
    unfolding a by blast
  moreover from selected_block_has_selected_shift[OF m v t b2] orphan
  have "small_schedule (BlockVar 0 2) = 0"
    unfolding a by blast
  ultimately show ?thesis using m v one by blast
qed

section \<open>The shift loop\<close>

lemma np_sum_eq_length: "np_sum a = length a \<longleftrightarrow> (\<forall>x\<in>set a. x)"
proof -
  have "length (filter (\<lambda>x. x) a) = length a \<longleftrightarrow> filter (\<lambda>x. x) a = a"
    by (metis length_filter_less less_irrefl_nat filter_True)
  then show ?thesis
    unfolding np_sum_def by (simp add: filter_id_conv)
qed

lemma in_shift_blocks: "j \<in> set (shift_blocks (w, i)) \<longleftrightarrow> i \<le> j \<and> j \<le> i + w"
  by (auto simp: shift_blocks_def simp del: upt_Suc)

lemma slice_all_available:
  assumes "i + w < length a"
  shows "np_sum (slice a i (i + w + 1)) = w + 1 \<longleftrightarrow> (\<forall>j\<in>set (shift_blocks (w, i)). a ! j)"
proof -
  let ?s = "slice a i (i + w + 1)"
  have len: "length ?s = w + 1" using assms by (simp add: slice_def)
  have nth: "?s ! k = a ! (i + k)" if "k < w + 1" for k
    using that assms by (simp add: slice_def)
  have "(\<forall>x\<in>set ?s. x) \<longleftrightarrow> (\<forall>k<w + 1. a ! (i + k))"
    unfolding all_set_conv_all_nth len using nth by auto
  also have "\<dots> \<longleftrightarrow> (\<forall>j\<in>set (shift_blocks (w, i)). a ! j)"
  proof
    assume h: "\<forall>k<w + 1. a ! (i + k)"
    show "\<forall>j\<in>set (shift_blocks (w, i)). a ! j"
    proof
      fix j assume "j \<in> set (shift_blocks (w, i))"
      then have "j - i < w + 1" "i + (j - i) = j" by (auto simp: in_shift_blocks)
      with h show "a ! j" by metis
    qed
  next
    assume "\<forall>j\<in>set (shift_blocks (w, i)). a ! j"
    then show "\<forall>k<w + 1. a ! (i + k)" by (auto simp: in_shift_blocks)
  qed
  finally show ?thesis using np_sum_eq_length[of ?s] len by simp
qed

lemma in_shift_windows:
  "(w, i) \<in> set (shift_windows p blocks a) \<longleftrightarrow>
     w < max_oh_shift_length p \<and> i + w < length a \<and> keep_shift blocks a w i"
  unfolding shift_windows_def by force

lemma keep_shift_iff:
  assumes "i + w < length a"
  shows "keep_shift blocks a w i \<longleftrightarrow>
           \<not> (21 \<le> block_start (blocks ! i) \<and> w < 2) \<and>
           block_day (blocks ! i) = block_day (blocks ! (i + w)) \<and>
           (\<forall>j\<in>set (shift_blocks (w, i)). a ! j)"
  unfolding keep_shift_def Let_def using slice_all_available[OF assms] by auto

lemma length_row_shifts [simp]:
  "length (row_shifts p blocks t a) = length (shift_windows p blocks a)"
  by (simp add: row_shifts_def)

lemma nth_row_shifts:
  assumes "k < length (shift_windows p blocks a)" and "shift_windows p blocks a ! k = (w, i)"
  shows "row_shifts p blocks t a ! k =
           Shift (ShiftVar t k) (block_day (blocks ! i)) (block_start (blocks ! i))
                 (block_end (blocks ! (i + w)))"
  using assms by (simp add: row_shifts_def nth_enumerate_eq make_shift_def)

section \<open>Late shifts\<close>

text \<open>
  Claim C2, amended. For a block that starts at 21 or later, the loop creates the shift
  of \<open>window + 1\<close> hours from that block exactly when the shift has at least 3 and at
  most \<^verbatim>\<open>max_oh_shift_length\<close> hours, lies within the availability array, ends on
  the day it starts and all of its blocks are available: the \<^verbatim>\<open>continue\<close> skips
  \<^verbatim>\<open>window < 2\<close>, the late shifts of one and of two hours.
\<close>

theorem late_shift_iff_three_hours:
  assumes "21 \<le> block_start (blocks ! block_idx)"
  shows "(\<exists>k < length (row_shifts p blocks ta_idx availability).
            shift_windows p blocks availability ! k = (window, block_idx) \<and>
            row_shifts p blocks ta_idx availability ! k =
              Shift (ShiftVar ta_idx k) (block_day (blocks ! block_idx))
                    (block_start (blocks ! block_idx))
                    (block_end (blocks ! (block_idx + window)))) \<longleftrightarrow>
         (3 \<le> window + 1 \<and> window + 1 \<le> max_oh_shift_length p \<and>
          block_idx + window < length availability \<and>
          block_day (blocks ! block_idx) = block_day (blocks ! (block_idx + window)) \<and>
          (\<forall>j\<in>set (shift_blocks (window, block_idx)). availability ! j))"
proof -
  let ?ws = "shift_windows p blocks availability"
  have "(\<exists>k < length (row_shifts p blocks ta_idx availability).
            ?ws ! k = (window, block_idx) \<and>
            row_shifts p blocks ta_idx availability ! k =
              Shift (ShiftVar ta_idx k) (block_day (blocks ! block_idx))
                    (block_start (blocks ! block_idx))
                    (block_end (blocks ! (block_idx + window)))) \<longleftrightarrow>
        (\<exists>k < length ?ws. ?ws ! k = (window, block_idx))"
    using nth_row_shifts by auto
  also have "\<dots> \<longleftrightarrow> (window, block_idx) \<in> set ?ws"
    by (auto simp: in_set_conv_nth)
  also have "\<dots> \<longleftrightarrow> window < max_oh_shift_length p \<and> block_idx + window < length availability \<and>
      keep_shift blocks availability window block_idx"
    by (rule in_shift_windows)
  also have "\<dots> \<longleftrightarrow> (3 \<le> window + 1 \<and> window + 1 \<le> max_oh_shift_length p \<and>
          block_idx + window < length availability \<and>
          block_day (blocks ! block_idx) = block_day (blocks ! (block_idx + window)) \<and>
          (\<forall>j\<in>set (shift_blocks (window, block_idx)). availability ! j))"
    using assms keep_shift_iff[of block_idx window availability blocks] by auto
  finally show ?thesis .
qed

lemma late_blocks_eval:
  "late_blocks = [Block ''Mon'' 21 22, Block ''Mon'' 22 23, Block ''Mon'' 23 24]"
  by code_simp

text \<open>
  The claim as stated fails: an assistant available on Monday from 21 to 23 and not
  from 23 to 24 gets no shift, though the two available hours are a late run of 2 hours.
\<close>

theorem two_hour_late_run_no_shift:
  "oh_block_id_to_block [((''Mon'', 21, 23), (1, 2))] =
     [Block ''Mon'' 21 22, Block ''Mon'' 22 23, Block ''Mon'' 23 24] \<and>
   row_shifts notebook_params (oh_block_id_to_block [((''Mon'', 21, 23), (1, 2))]) 0
     [True, True, False] = []"
  by code_simp

theorem late_shift_iff_three_hours_witness:
  "21 \<le> block_start (late_blocks ! 0) \<and>
   (\<exists>k < length (row_shifts notebook_params late_blocks 0 [True, True, True]).
      shift_windows notebook_params late_blocks [True, True, True] ! k = (2, 0) \<and>
      row_shifts notebook_params late_blocks 0 [True, True, True] ! k =
        Shift (ShiftVar 0 k) ''Mon'' 21 24) \<and>
   \<not> (\<exists>k < length (row_shifts notebook_params late_blocks 0 [True, True, True]).
      shift_windows notebook_params late_blocks [True, True, True] ! k = (1, 0) \<and>
      row_shifts notebook_params late_blocks 0 [True, True, True] ! k =
        Shift (ShiftVar 0 k) ''Mon'' 21 23)"
proof -
  have late: "21 \<le> block_start (late_blocks ! 0)"
    by (simp add: late_blocks_eval)
  have fields: "block_day (late_blocks ! 0) = ''Mon''" "block_start (late_blocks ! 0) = 21"
    "block_end (late_blocks ! (0 + 2)) = 24" "block_end (late_blocks ! (0 + 1)) = 23"
    "block_day (late_blocks ! (0 + 2)) = ''Mon''"
    by (simp_all add: late_blocks_eval)
  have "shift_blocks (2, 0) = [0, 1, 2]"
    by code_simp
  then have av: "\<forall>j\<in>set (shift_blocks (2, 0)). [True, True, True] ! j"
    by simp
  have p: "max_oh_shift_length notebook_params = 3"
    by (simp add: notebook_params_def)
  from late_shift_iff_three_hours[OF late, of notebook_params 0 "[True, True, True]" 2] av p
  have "\<exists>k < length (row_shifts notebook_params late_blocks 0 [True, True, True]).
      shift_windows notebook_params late_blocks [True, True, True] ! k = (2, 0) \<and>
      row_shifts notebook_params late_blocks 0 [True, True, True] ! k =
        Shift (ShiftVar 0 k) ''Mon'' 21 24"
    unfolding fields by simp
  moreover
  from late_shift_iff_three_hours[OF late, of notebook_params 0 "[True, True, True]" 1]
  have "\<not> (\<exists>k < length (row_shifts notebook_params late_blocks 0 [True, True, True]).
      shift_windows notebook_params late_blocks [True, True, True] ! k = (1, 0) \<and>
      row_shifts notebook_params late_blocks 0 [True, True, True] ! k =
        Shift (ShiftVar 0 k) ''Mon'' 21 23)"
    unfolding fields by simp
  ultimately show ?thesis using late by blast
qed

section \<open>The shape of a shift\<close>

lemma contiguous_within_dayD:
  assumes c: "contiguous_within_day blocks"
    and "i \<le> j" "j < length blocks"
    and d: "block_day (blocks ! i) = block_day (blocks ! j)"
  shows "block_start (blocks ! j) = block_start (blocks ! i) + int (j - i)"
    and "\<forall>k. i \<le> k \<and> k \<le> j \<longrightarrow> block_day (blocks ! k) = block_day (blocks ! i)"
proof -
  have both: "block_start (blocks ! j) = block_start (blocks ! i) + int (j - i) \<and>
      (\<forall>k. i \<le> k \<and> k \<le> j \<longrightarrow> block_day (blocks ! k) = block_day (blocks ! i))"
  proof (cases "i = j")
    case True
    then show ?thesis by auto
  next
    case False
    with assms(2) have lt: "i < j" by simp
    have all: "\<forall>j\<in>set [0..<length blocks]. \<forall>i\<in>set [0..<j].
        block_day (blocks ! i) = block_day (blocks ! j) \<longrightarrow>
          block_start (blocks ! j) = block_start (blocks ! i) + int (j - i) \<and>
          (\<forall>k\<in>set [i..<j]. block_day (blocks ! k) = block_day (blocks ! i))"
      using c unfolding contiguous_within_day_def list_all_iff .
    have jm: "j \<in> set [0..<length blocks]" using assms(3) by simp
    have im: "i \<in> set [0..<j]" using lt by simp
    note inst = all[rule_format, of j i, OF jm im d]
    from inst have st: "block_start (blocks ! j) = block_start (blocks ! i) + int (j - i)"
      by (rule conjunct1)
    from inst have between: "\<forall>k\<in>set [i..<j]. block_day (blocks ! k) = block_day (blocks ! i)"
      by (rule conjunct2)
    have "block_day (blocks ! k) = block_day (blocks ! i)" if "i \<le> k" "k \<le> j" for k
    proof (cases "k = j")
      case True
      with d show ?thesis by simp
    next
      case False
      with that have "k \<in> set [i..<j]" by simp
      with between show ?thesis by (rule_tac bspec)
    qed
    with st show ?thesis by blast
  qed
  from both show "block_start (blocks ! j) = block_start (blocks ! i) + int (j - i)" by blast
  from both show "\<forall>k. i \<le> k \<and> k \<le> j \<longrightarrow> block_day (blocks ! k) = block_day (blocks ! i)" by blast
qed

lemma block_end_enumerate:
  assumes "b \<in> set (oh_block_id_to_block oh_demand_bounds)"
  shows "block_end b = block_start b + 1"
  using assms unfolding oh_block_id_to_block_def enumerate_blocks_def by auto

text \<open>
  Claim C9, amended. Every generated shift has between 1 and \<^verbatim>\<open>max_oh_shift_length\<close>
  blocks, all of them blocks of the universe that are marked available. On a block
  universe whose blocks are contiguous within a day, all of them lie on the day of the
  shift, at consecutive hours from the start of the shift, and the end hour minus the
  start hour of the shift is the number of its blocks.
\<close>

theorem shift_shape:
  assumes len: "length availability = length (oh_block_id_to_block oh_demand_bounds)"
    and k: "k < length (row_shifts p (oh_block_id_to_block oh_demand_bounds) ta_idx availability)"
    and w: "shift_windows p (oh_block_id_to_block oh_demand_bounds) availability ! k
              = (window, block_idx)"
  shows "1 \<le> length (shift_blocks (window, block_idx)) \<and>
         length (shift_blocks (window, block_idx)) \<le> max_oh_shift_length p \<and>
         (\<forall>j\<in>set (shift_blocks (window, block_idx)).
            j < length (oh_block_id_to_block oh_demand_bounds) \<and> availability ! j) \<and>
         (contiguous_within_day (oh_block_id_to_block oh_demand_bounds) \<longrightarrow>
            (\<forall>j\<in>set (shift_blocks (window, block_idx)).
               block_day (oh_block_id_to_block oh_demand_bounds ! j)
                 = shift_day (row_shifts p (oh_block_id_to_block oh_demand_bounds) ta_idx availability ! k) \<and>
               block_start (oh_block_id_to_block oh_demand_bounds ! j)
                 = shift_start (row_shifts p (oh_block_id_to_block oh_demand_bounds) ta_idx availability ! k)
                   + int (j - block_idx)) \<and>
            shift_end (row_shifts p (oh_block_id_to_block oh_demand_bounds) ta_idx availability ! k)
              - shift_start (row_shifts p (oh_block_id_to_block oh_demand_bounds) ta_idx availability ! k)
              = int (length (shift_blocks (window, block_idx))))"
proof -
  let ?blocks = "oh_block_id_to_block oh_demand_bounds"
  let ?s = "row_shifts p ?blocks ta_idx availability ! k"
  from k have k': "k < length (shift_windows p ?blocks availability)" by simp
  with w have "(window, block_idx) \<in> set (shift_windows p ?blocks availability)"
    by (metis nth_mem)
  then have win: "window < max_oh_shift_length p" and inside: "block_idx + window < length availability"
    and keep: "keep_shift ?blocks availability window block_idx"
    unfolding in_shift_windows by simp_all
  from keep inside have day: "block_day (?blocks ! block_idx) = block_day (?blocks ! (block_idx + window))"
    and av: "\<forall>j\<in>set (shift_blocks (window, block_idx)). availability ! j"
    unfolding keep_shift_iff[OF inside] by simp_all
  have s: "?s = Shift (ShiftVar ta_idx k) (block_day (?blocks ! block_idx))
                 (block_start (?blocks ! block_idx)) (block_end (?blocks ! (block_idx + window)))"
    by (rule nth_row_shifts[OF k' w])
  have fields: "shift_day ?s = block_day (?blocks ! block_idx)"
    "shift_start ?s = block_start (?blocks ! block_idx)"
    "shift_end ?s = block_end (?blocks ! (block_idx + window))"
    unfolding s by simp_all
  have in_universe: "block_idx + window < length ?blocks" using inside len by simp
  have n: "length (shift_blocks (window, block_idx)) = window + 1"
    by (simp add: shift_blocks_def)
  have count: "1 \<le> length (shift_blocks (window, block_idx))"
    "length (shift_blocks (window, block_idx)) \<le> max_oh_shift_length p"
    using win n by simp_all
  have each: "\<forall>j\<in>set (shift_blocks (window, block_idx)). j < length ?blocks \<and> availability ! j"
  proof
    fix j assume j: "j \<in> set (shift_blocks (window, block_idx))"
    then have "j \<le> block_idx + window" by (simp add: in_shift_blocks)
    with in_universe have "j < length ?blocks" by simp
    moreover from av j have "availability ! j" by (rule bspec)
    ultimately show "j < length ?blocks \<and> availability ! j" by (rule conjI)
  qed
  have run: "(\<forall>j\<in>set (shift_blocks (window, block_idx)).
               block_day (?blocks ! j) = shift_day ?s \<and>
               block_start (?blocks ! j) = shift_start ?s + int (j - block_idx)) \<and>
            shift_end ?s - shift_start ?s = int (length (shift_blocks (window, block_idx)))"
    if c: "contiguous_within_day ?blocks"
  proof -
    have "block_idx \<le> block_idx + window" by simp
    note same = contiguous_within_dayD(2)[OF c this in_universe day, rule_format]
    have days: "block_day (?blocks ! j) = block_day (?blocks ! block_idx)"
      if "block_idx \<le> j" "j \<le> block_idx + window" for j
      using that by (intro same conjI)
    have starts: "block_start (?blocks ! j) = block_start (?blocks ! block_idx) + int (j - block_idx)"
      if "block_idx \<le> j" "j \<le> block_idx + window" for j
    proof -
      from that in_universe have "j < length ?blocks" by simp
      moreover from days[OF that] have "block_day (?blocks ! block_idx) = block_day (?blocks ! j)"
        by (rule sym)
      ultimately show ?thesis by (rule contiguous_within_dayD(1)[OF c that(1)])
    qed
    have "?blocks ! (block_idx + window) \<in> set ?blocks"
      using in_universe by simp
    from block_end_enumerate[OF this] starts[of "block_idx + window"]
    have span: "block_end (?blocks ! (block_idx + window)) - block_start (?blocks ! block_idx)
                  = int (window + 1)"
      by simp
    have "\<forall>j\<in>set (shift_blocks (window, block_idx)).
               block_day (?blocks ! j) = shift_day ?s \<and>
               block_start (?blocks ! j) = shift_start ?s + int (j - block_idx)"
    proof
      fix j assume j: "j \<in> set (shift_blocks (window, block_idx))"
      then have r: "block_idx \<le> j" "j \<le> block_idx + window" by (simp_all add: in_shift_blocks)
      note 1 = days[OF r]
      note 2 = starts[OF r]
      from 1 2 show "block_day (?blocks ! j) = shift_day ?s \<and>
               block_start (?blocks ! j) = shift_start ?s + int (j - block_idx)"
        unfolding fields by (intro conjI)
    qed
    moreover have "shift_end ?s - shift_start ?s = int (length (shift_blocks (window, block_idx)))"
      unfolding fields n by (rule span)
    ultimately show ?thesis by (rule conjI)
  qed
  have "contiguous_within_day ?blocks \<longrightarrow>
          (\<forall>j\<in>set (shift_blocks (window, block_idx)).
               block_day (?blocks ! j) = shift_day ?s \<and>
               block_start (?blocks ! j) = shift_start ?s + int (j - block_idx)) \<and>
            shift_end ?s - shift_start ?s = int (length (shift_blocks (window, block_idx)))"
    by (rule impI) (rule run)
  with count each show ?thesis by (intro conjI)
qed

text \<open>
  Without the assumption the claim fails: with the windows Monday 10 and Monday 12 the
  loop creates the shift (Mon, 10, 13) of the two blocks 0 and 1, whose end hour minus
  start hour is 3.
\<close>

theorem gap_within_day_shift:
  "row_shifts notebook_params
     (oh_block_id_to_block [((''Mon'', 10, 10), (0, 1)), ((''Mon'', 12, 12), (0, 1))]) 0
     [True, True] =
   [Shift (ShiftVar 0 0) ''Mon'' 10 11, Shift (ShiftVar 0 1) ''Mon'' 12 13,
    Shift (ShiftVar 0 2) ''Mon'' 10 13] \<and>
   shift_windows notebook_params
     (oh_block_id_to_block [((''Mon'', 10, 10), (0, 1)), ((''Mon'', 12, 12), (0, 1))])
     [True, True] ! 2 = (1, 0) \<and>
   shift_blocks (1, 0) = [0, 1]"
  by code_simp

theorem shift_shape_witness:
  "contiguous_within_day (oh_block_id_to_block week_bounds) \<and>
   length (oh_available alice) = length (oh_block_id_to_block week_bounds) \<and>
   shift_windows small_params (oh_block_id_to_block week_bounds) (oh_available alice) ! 2 = (1, 0) \<and>
   row_shifts small_params (oh_block_id_to_block week_bounds) 0 (oh_available alice) ! 2
     = Shift (ShiftVar 0 2) ''Mon'' 10 12 \<and>
   shift_end (row_shifts small_params (oh_block_id_to_block week_bounds) 0 (oh_available alice) ! 2)
     - shift_start (row_shifts small_params (oh_block_id_to_block week_bounds) 0 (oh_available alice) ! 2)
     = 2"
proof -
  have len: "length (oh_available alice) = length (oh_block_id_to_block week_bounds)"
    by (simp add: week_blocks alice_def)
  have k: "2 < length (row_shifts small_params (oh_block_id_to_block week_bounds) 0 (oh_available alice))"
    by code_simp
  have w: "shift_windows small_params (oh_block_id_to_block week_bounds) (oh_available alice) ! 2 = (1, 0)"
    by code_simp
  have s: "row_shifts small_params (oh_block_id_to_block week_bounds) 0 (oh_available alice) ! 2
     = Shift (ShiftVar 0 2) ''Mon'' 10 12"
    by code_simp
  have n: "length (shift_blocks (1, 0)) = 2"
    by code_simp
  from shift_shape[OF len k w] week_contiguous
  have "shift_end (row_shifts small_params (oh_block_id_to_block week_bounds) 0 (oh_available alice) ! 2)
     - shift_start (row_shifts small_params (oh_block_id_to_block week_bounds) 0 (oh_available alice) ! 2)
     = int (length (shift_blocks (1, 0)))"
    by blast
  then have "shift_end (row_shifts small_params (oh_block_id_to_block week_bounds) 0 (oh_available alice) ! 2)
     - shift_start (row_shifts small_params (oh_block_id_to_block week_bounds) 0 (oh_available alice) ! 2)
     = 2"
    unfolding n by simp
  with week_contiguous len w s show ?thesis by (intro conjI)
qed

section \<open>Demand bounds\<close>

text \<open>The constraint a block receives bounds its sum from above only.\<close>

lemma satisfied_demand_constraint:
  "satisfied v (demand_constraint roster block_id (demand_lb, demand_ub)) \<longleftrightarrow>
     sum_list (map (\<lambda>(ta_idx, x). v x) (oh_blocks roster block_id)) \<le> demand_ub"
  by (simp add: demand_constraint_def Let_def o_def case_prod_unfold)

text \<open>
  Claim C5, evaluated. The block of \<open>tuesday_index\<close> has the demand bound (1, 1) and
  dave is available for it. The schedule that assigns nobody is a feasible solution of
  the constructed program, whatever the utilities: the sum of the block's variables is
  0, below the lower bound 1.
\<close>

theorem demand_lower_bound_dropped:
  "\<exists>m. ip_model idle_params tuesday_index 0 ta_utility [dave] [] = Inr m \<and>
       feasible m nobody_works \<and>
       map snd tuesday_index ! 0 = (1, 1) \<and>
       sum_list (map (\<lambda>(ta_idx, x). nobody_works x) (oh_blocks [dave] 0)) = 0"
proof -
  have "ip_model idle_params tuesday_index 0 ta_utility [dave] [] =
     Inr \<lparr> variables = model_variables idle_params (map fst tuesday_index) [dave] [],
            constraints = model_constraints idle_params tuesday_index 0 [dave] [],
            objective = total_obj idle_params ta_utility [dave] [] \<rparr>"
    by (simp add: ip_model_def idle_params_def notebook_params_def)
  moreover have "list_all (\<lambda>x. 0 \<le> nobody_works x \<and> nobody_works x \<le> 1)
      (model_variables idle_params (map fst tuesday_index) [dave] [])"
    by code_simp
  moreover have "list_all (satisfied nobody_works)
      (model_constraints idle_params tuesday_index 0 [dave] [])"
    by code_simp
  moreover have "map snd tuesday_index ! 0 = (1, 1)"
    by code_simp
  moreover have "sum_list (map (\<lambda>(ta_idx, x). nobody_works x) (oh_blocks [dave] 0)) = 0"
    by code_simp
  ultimately show ?thesis by (simp add: feasible_def)
qed

section \<open>Buddy variables\<close>

text \<open>
  The constraint of a buddy variable reads the requester's variable twice and the
  requested assistant's variable not at all.
\<close>

lemma satisfied_buddy_constraint:
  "satisfied v (buddy_constraint (buddy_var, requester_var, requested_var)) \<longleftrightarrow>
     v buddy_var \<le> 2 * v requester_var"
  by (simp add: buddy_constraint_def)

lemma buddy_model_constraints:
  "list_all (satisfied v) (model_constraints buddy_params [] 1 [erin, frank] [(0, 1)]) \<longleftrightarrow>
     v (RecitationVar 0 0) \<le> 2 \<and> v (RecitationVar 1 0) \<le> 1 \<and>
     v (RecitationVar 0 0) + v (RecitationVar 1 0) \<le> 2 \<and>
     2 * v (RecitationVar 0 0) \<le> 4 \<and> 2 * v (RecitationVar 1 0) \<le> 1 \<and>
     v (BuddyVar 0 0 1 0) \<le> 2 * v (RecitationVar 0 0)"
proof -
  have "model_constraints buddy_params [] 1 [erin, frank] [(0, 1)] =
     [expr_le (Num 0) (Num 3), expr_le (Num 0) (Num 1), expr_le (Num 0) (Num 1),
      expr_le (Num 0) (Num 3), expr_le (Num 0) (Num 1), expr_le (Num 0) (Num 1),
      expr_le (Var (RecitationVar 0 0)) (Num 2), expr_le (Var (RecitationVar 1 0)) (Num 1),
      expr_le (expr_add (Var (RecitationVar 0 0)) (Var (RecitationVar 1 0))) (Num 2),
      expr_le (expr_scale 2 (Var (RecitationVar 0 0))) (Num 4),
      expr_le (expr_scale 2 (Var (RecitationVar 1 0))) (Num 1),
      expr_ge (Num 0) (Num 0),
      buddy_constraint (BuddyVar 0 0 1 0, RecitationVar 0 0, RecitationVar 1 0)]"
    by code_simp
  then show ?thesis
    by (auto simp: satisfied_buddy_constraint)
qed

lemma buddy_variables:
  "model_variables buddy_params (map fst []) [erin, frank] [(0, 1)] =
     [RecitationVar 0 0, RecitationVar 1 0, BuddyVar 0 0 1 0]"
  by code_simp

lemma buddy_request: "resolve_buddies [erin, frank] [(''erin'', ''frank'')] = [(0, 1)]"
  by code_simp

lemma buddy_objective:
  "solution_value w (total_obj buddy_params ta_utility [erin, frank] [(0, 1)]) =
     5 * (ta_utility erin * w (RecitationVar 0 0) + ta_utility frank * w (RecitationVar 1 0) +
          5 * w (BuddyVar 0 0 1 0))"
proof -
  have "oh_utility_obj_clauses buddy_params [erin, frank] = []"
    by code_simp
  moreover have "row_recitations 0 (recitation_available erin) = [(0, RecitationVar 0 0)]"
    "row_recitations 1 (recitation_available frank) = [(0, RecitationVar 1 0)]"
    by code_simp+
  moreover have "buddy_links [erin, frank] [(0, 1)] =
      [(BuddyVar 0 0 1 0, RecitationVar 0 0, RecitationVar 1 0)]"
    by code_simp
  moreover have "alpha buddy_params = 5" "recitation_one_way_buddy_weight buddy_params = 5"
    by (simp_all add: buddy_params_def notebook_params_def)
  ultimately show ?thesis
    by (simp add: total_obj_def recitation_base_clauses_def buddy_clauses_def)
qed

lemma buddy_feasible:
  assumes "ip_model buddy_params [] 1 ta_utility [erin, frank] [(''erin'', ''frank'')] = Inr m"
  shows "feasible m w \<longleftrightarrow>
      (0 \<le> w (RecitationVar 0 0) \<and> w (RecitationVar 0 0) \<le> 1 \<and>
       0 \<le> w (RecitationVar 1 0) \<and> w (RecitationVar 1 0) \<le> 1 \<and>
       0 \<le> w (BuddyVar 0 0 1 0) \<and> w (BuddyVar 0 0 1 0) \<le> 1) \<and>
      list_all (satisfied w) (model_constraints buddy_params [] 1 [erin, frank] [(0, 1)])"
proof -
  from ip_model_Inr[OF assms, unfolded buddy_request buddy_variables]
  have vars: "variables m = [RecitationVar 0 0, RecitationVar 1 0, BuddyVar 0 0 1 0]"
    and cons: "constraints m = model_constraints buddy_params [] 1 [erin, frank] [(0, 1)]"
    by blast+
  show ?thesis unfolding feasible_def vars cons by simp
qed

text \<open>
  Claim C1, evaluated. In the program built for erin, frank and erin's request, with any
  utility that is not negative for erin, every optimal solution sets the buddy variable
  to 1 although frank, the requested assistant, is not assigned to the recitation.
\<close>

theorem buddy_bonus_follows_requester:
  assumes u: "0 \<le> ta_utility erin"
    and m: "ip_model buddy_params [] 1 ta_utility [erin, frank] [(''erin'', ''frank'')] = Inr m"
    and v: "feasible m v"
    and opt: "\<forall>w. feasible m w \<longrightarrow> solution_value w (objective m) \<le> solution_value v (objective m)"
  shows "v (RecitationVar 1 0) = 0 \<and> v (BuddyVar 0 0 1 0) = 1"
proof -
  note feas = buddy_feasible[OF m]
  have obj: "solution_value w (objective m) =
      5 * (ta_utility erin * w (RecitationVar 0 0) + ta_utility frank * w (RecitationVar 1 0) +
           5 * w (BuddyVar 0 0 1 0))" for w
  proof -
    from ip_model_Inr[OF m, unfolded buddy_request]
    have "objective m = total_obj buddy_params ta_utility [erin, frank] [(0, 1)]" by blast
    then show ?thesis by (simp only: buddy_objective)
  qed
  have "feasible m erin_alone"
    unfolding feas buddy_model_constraints by (simp add: erin_alone_def)
  with opt have "solution_value erin_alone (objective m) \<le> solution_value v (objective m)"
    by blast
  then have best: "ta_utility erin + 5 \<le>
      ta_utility erin * v (RecitationVar 0 0) + ta_utility frank * v (RecitationVar 1 0) +
      5 * v (BuddyVar 0 0 1 0)"
    unfolding obj by (simp add: erin_alone_def)
  from v have q: "v (RecitationVar 1 0) = 0"
    unfolding feas buddy_model_constraints by simp
  from v have r: "v (RecitationVar 0 0) \<le> 1" and b: "v (BuddyVar 0 0 1 0) \<le> 1"
    unfolding feas buddy_model_constraints by simp_all
  from mult_left_mono[OF r u] have "ta_utility erin * v (RecitationVar 0 0) \<le> ta_utility erin"
    by simp
  with best q b have "v (BuddyVar 0 0 1 0) = 1" by simp
  with q show ?thesis by simp
qed

theorem buddy_bonus_follows_requester_witness:
  "\<exists>m. 0 \<le> unit_utility erin \<and>
       ip_model buddy_params [] 1 unit_utility [erin, frank] [(''erin'', ''frank'')] = Inr m \<and>
       feasible m erin_alone \<and>
       erin_alone (RecitationVar 0 0) = 1 \<and> erin_alone (RecitationVar 1 0) = 0 \<and>
       erin_alone (BuddyVar 0 0 1 0) = 1"
proof -
  have u: "0 \<le> unit_utility erin" by (simp add: unit_utility_def)
  have "one_shift_per_day buddy_params"
    by (simp add: buddy_params_def notebook_params_def)
  from ip_model_builds[OF this]
  obtain m where m: "ip_model buddy_params [] 1 unit_utility [erin, frank] [(''erin'', ''frank'')] = Inr m"
    by blast
  note feas = buddy_feasible[OF m]
  have obj: "solution_value w (objective m) =
      5 * (w (RecitationVar 0 0) + w (RecitationVar 1 0) + 5 * w (BuddyVar 0 0 1 0))" for w
  proof -
    from ip_model_Inr[OF m, unfolded buddy_request]
    have "objective m = total_obj buddy_params unit_utility [erin, frank] [(0, 1)]" by blast
    then show ?thesis by (simp only: buddy_objective) (simp add: unit_utility_def)
  qed
  have v: "feasible m erin_alone"
    unfolding feas buddy_model_constraints by (simp add: erin_alone_def)
  have opt: "\<forall>w. feasible m w \<longrightarrow> solution_value w (objective m) \<le> solution_value erin_alone (objective m)"
  proof (intro allI impI)
    fix w assume "feasible m w"
    then have "w (RecitationVar 0 0) \<le> 1" "2 * w (RecitationVar 1 0) \<le> 1" "w (BuddyVar 0 0 1 0) \<le> 1"
      unfolding feas buddy_model_constraints by simp_all
    moreover from this have "w (RecitationVar 1 0) \<le> 0" by linarith
    ultimately have "w (RecitationVar 0 0) + w (RecitationVar 1 0) + 5 * w (BuddyVar 0 0 1 0) \<le> 6"
      by linarith
    then show "solution_value w (objective m) \<le> solution_value erin_alone (objective m)"
      unfolding obj by (simp add: erin_alone_def)
  qed
  from buddy_bonus_follows_requester[OF u m v opt]
  have "erin_alone (RecitationVar 1 0) = 0" "erin_alone (BuddyVar 0 0 1 0) = 1" by simp_all
  moreover have "erin_alone (RecitationVar 0 0) = 1" by (simp add: erin_alone_def)
  ultimately show ?thesis using u m v by blast
qed

section \<open>Recitation caps\<close>

lemma RecitationVar_in_model_variables:
  "RecitationVar t r \<in> set (model_variables p blocks roster buddies) \<longleftrightarrow>
     t < length roster \<and> r \<in> set (np_where (recitation_available (roster ! t)))"
proof -
  have "RecitationVar t r \<notin> set (map fst (buddy_links roster buddies))"
    by (auto simp: buddy_links_def Let_def in_set_enumerate_eq)
  moreover have "\<And>i a. RecitationVar t r \<notin> set (oh_variables_ta p blocks i a)"
    by (auto simp: oh_variables_ta_def row_blocks_def shift_vars_row_shifts)
  moreover have "\<And>i a. RecitationVar t r \<in> set (map snd (row_recitations i a)) \<longleftrightarrow>
      t = i \<and> r \<in> set (np_where a)"
    by (auto simp: row_recitations_def)
  ultimately show ?thesis
    unfolding model_variables_def
    by (auto simp: in_concat_enumerate simp del: set_concat in_np_where)
qed

lemma satisfied_recitation_cap_constraint:
  "satisfied v (recitation_cap_constraint p t row) \<longleftrightarrow>
     recitations_led v t row
       \<le> (if recitation_pref row \<ge> 4 then max_recitations_per_ta p else 1)"
  by (simp add: recitation_cap_constraint_def recitations_led_def row_recitations_def Let_def o_def)

text \<open>
  Claim C7. On a roster that passed the cleanup cells, every feasible solution gives an
  assistant of willingness 4 or more at most \<^verbatim>\<open>max_recitations_per_ta\<close> recitations
  and an assistant of willingness 1 to 3 at most one; an assistant of willingness 0 has
  no recitation variable at all, so leads none.
\<close>

theorem recitation_willingness_tiers:
  assumes c: "cleanup p df = Inr roster"
    and m: "ip_model p block_index n_recitations ta_utility roster ta_buddies = Inr m"
    and v: "feasible m v"
    and t: "ta_idx < length roster"
  shows "(recitation_pref (roster ! ta_idx) \<ge> 4 \<longrightarrow>
            recitations_led v ta_idx (roster ! ta_idx) \<le> max_recitations_per_ta p) \<and>
         (1 \<le> recitation_pref (roster ! ta_idx) \<and> recitation_pref (roster ! ta_idx) \<le> 3 \<longrightarrow>
            recitations_led v ta_idx (roster ! ta_idx) \<le> 1) \<and>
         (recitation_pref (roster ! ta_idx) = 0 \<longrightarrow>
            (\<forall>recitation_id. RecitationVar ta_idx recitation_id \<notin> set (variables m)) \<and>
            recitations_led v ta_idx (roster ! ta_idx) = 0)"
proof -
  have "recitation_cap_constraint p ta_idx (roster ! ta_idx) \<in> set (constraints m)"
    using in_model_constraints_enumerate(1)[OF t] ip_model_Inr[OF m] by simp
  from feasible_constraint[OF v this]
  have cap: "recitations_led v ta_idx (roster ! ta_idx)
       \<le> (if recitation_pref (roster ! ta_idx) \<ge> 4 then max_recitations_per_ta p else 1)"
    unfolding satisfied_recitation_cap_constraint .
  have zero: "(\<forall>recitation_id. RecitationVar ta_idx recitation_id \<notin> set (variables m)) \<and>
      recitations_led v ta_idx (roster ! ta_idx) = 0"
    if "recitation_pref (roster ! ta_idx) = 0"
  proof -
    have "roster ! ta_idx \<in> set roster" using t by simp
    from cleanup_no_recitation[OF c this that]
    have e: "np_where (recitation_available (roster ! ta_idx)) = []" .
    have "variables m = model_variables p (map fst block_index) roster
                (resolve_buddies roster ta_buddies)"
      using ip_model_Inr[OF m] by simp
    then show ?thesis
      by (simp add: RecitationVar_in_model_variables recitations_led_def e del: in_np_where)
  qed
  from cap zero show ?thesis by auto
qed

theorem recitation_willingness_tiers_witness:
  "\<exists>m. cleanup small_params small_df = Inr [alice, bob, carol] \<and>
       ip_model small_params week_index 1 unit_utility [alice, bob, carol] [] = Inr m \<and>
       feasible m small_schedule \<and>
       recitation_pref alice = 4 \<and>
       recitations_led small_schedule 0 alice \<le> max_recitations_per_ta small_params \<and>
       recitation_pref carol = 2 \<and> recitations_led small_schedule 2 carol \<le> 1 \<and>
       recitation_pref bob = 0 \<and> RecitationVar 1 0 \<notin> set (variables m)"
proof -
  obtain m where m: "ip_model small_params week_index 1 unit_utility [alice, bob, carol] [] = Inr m"
    and v: "feasible m small_schedule"
    using small_model_feasible by blast
  have t: "(0::nat) < length [alice, bob, carol]" "(1::nat) < length [alice, bob, carol]"
    "(2::nat) < length [alice, bob, carol]"
    by simp_all
  have prefs: "recitation_pref alice = 4" "recitation_pref carol = 2" "recitation_pref bob = 0"
    by (simp_all add: alice_def bob_def carol_def)
  from recitation_willingness_tiers[OF small_cleanup m v t(1)] prefs
  have "recitations_led small_schedule 0 alice \<le> max_recitations_per_ta small_params"
    by simp
  moreover from recitation_willingness_tiers[OF small_cleanup m v t(3)] prefs
  have "recitations_led small_schedule 2 carol \<le> 1"
    by simp
  moreover from recitation_willingness_tiers[OF small_cleanup m v t(2)] prefs
  have "RecitationVar 1 0 \<notin> set (variables m)"
    by simp
  ultimately show ?thesis using small_cleanup m v prefs by blast
qed

section \<open>Commitment bounds\<close>

lemma solution_value_commitment_sum:
  "solution_value v (commitment_sum p t row) = weighted_commitment p v t row"
  by (simp add: commitment_sum_def weighted_commitment_def row_blocks_def row_recitations_def
        o_def sum_list_const_mult)

lemma satisfied_commitment_constraints:
  "list_all (satisfied w) (commitment_constraints p t row) \<longleftrightarrow>
     weighted_commitment p w t row \<le> max_hours row - grading_time_commitment p \<and>
     (min_hours row > grading_time_commitment p \<longrightarrow>
        min_hours row - grading_time_commitment p \<le> weighted_commitment p w t row)"
  by (simp add: commitment_constraints_def solution_value_commitment_sum)

text \<open>
  Claim C8. For every assistant of the program, the weighted commitment is at most
  \<^verbatim>\<open>max_hours - grading_time_commitment\<close> in every feasible solution, and at least
  \<^verbatim>\<open>min_hours - grading_time_commitment\<close> when \<^verbatim>\<open>min_hours\<close> exceeds the grading
  time. The commitment constraints of an assistant say exactly that: with
  \<^verbatim>\<open>min_hours\<close> at or below the grading time they bound the commitment from above only.
\<close>

theorem commitment_bounds:
  assumes m: "ip_model p block_index n_recitations ta_utility roster ta_buddies = Inr m"
    and v: "feasible m v"
    and t: "ta_idx < length roster"
  shows "weighted_commitment p v ta_idx (roster ! ta_idx)
           \<le> max_hours (roster ! ta_idx) - grading_time_commitment p \<and>
         (min_hours (roster ! ta_idx) > grading_time_commitment p \<longrightarrow>
            min_hours (roster ! ta_idx) - grading_time_commitment p
              \<le> weighted_commitment p v ta_idx (roster ! ta_idx)) \<and>
         (\<forall>w. list_all (satisfied w) (commitment_constraints p ta_idx (roster ! ta_idx)) \<longleftrightarrow>
            weighted_commitment p w ta_idx (roster ! ta_idx)
              \<le> max_hours (roster ! ta_idx) - grading_time_commitment p \<and>
            (min_hours (roster ! ta_idx) > grading_time_commitment p \<longrightarrow>
               min_hours (roster ! ta_idx) - grading_time_commitment p
                 \<le> weighted_commitment p w ta_idx (roster ! ta_idx)))"
proof -
  have "set (commitment_constraints p ta_idx (roster ! ta_idx)) \<subseteq> set (constraints m)"
    using in_model_constraints_enumerate(2)[OF t] ip_model_Inr[OF m] by simp
  with v have "list_all (satisfied v) (commitment_constraints p ta_idx (roster ! ta_idx))"
    unfolding feasible_def list_all_iff by blast
  then show ?thesis
    using satisfied_commitment_constraints by blast
qed

theorem commitment_bounds_witness:
  "\<exists>m. ip_model small_params week_index 1 unit_utility [alice, bob, carol] [] = Inr m \<and>
       feasible m small_schedule \<and>
       weighted_commitment small_params small_schedule 0 alice = 4 \<and>
       max_hours alice - grading_time_commitment small_params = 4 \<and>
       min_hours alice - grading_time_commitment small_params = 1 \<and>
       min_hours bob \<le> grading_time_commitment small_params \<and>
       list_all (satisfied nobody_works) (commitment_constraints small_params 1 bob)"
proof -
  obtain m where m: "ip_model small_params week_index 1 unit_utility [alice, bob, carol] [] = Inr m"
    and v: "feasible m small_schedule"
    using small_model_feasible by blast
  have t0: "(0::nat) < length [alice, bob, carol]" and t1: "(1::nat) < length [alice, bob, carol]"
    by simp_all
  have g: "grading_time_commitment small_params = 2"
    by (simp add: small_params_def notebook_params_def)
  have c: "weighted_commitment small_params small_schedule 0 alice = 4"
    by code_simp
  have z: "weighted_commitment small_params nobody_works 1 bob = 0"
    by code_simp
  from commitment_bounds[OF m v t0] c
  have "4 \<le> max_hours alice - grading_time_commitment small_params"
    by simp
  then have "max_hours alice - grading_time_commitment small_params = 4"
    by (simp add: alice_def g)
  moreover have "min_hours alice - grading_time_commitment small_params = 1"
    by (simp add: alice_def g)
  moreover have "min_hours bob \<le> grading_time_commitment small_params"
    by (simp add: bob_def g)
  moreover from commitment_bounds[OF m v t1] z
  have "list_all (satisfied nobody_works) (commitment_constraints small_params 1 bob)"
    by (simp add: bob_def g)
  ultimately show ?thesis using m v c by blast
qed

section \<open>The roster filter\<close>

lemma index_of_less: "x \<in> set xs \<Longrightarrow> index_of xs x < length xs"
  by (induction xs) auto

lemma nth_index_of: "x \<in> set xs \<Longrightarrow> xs ! index_of xs x = x"
  by (induction xs) auto

lemma in_resolve_buddies:
  assumes "(i, j) \<in> set (resolve_buddies roster ta_buddies)"
  shows "i < length roster \<and> j < length roster \<and>
         (name (roster ! i), name (roster ! j)) \<in> set ta_buddies"
proof -
  from assms obtain requester requested where in_list: "(requester, requested) \<in> set ta_buddies"
    and names: "requester \<in> set (map name roster)" "requested \<in> set (map name roster)"
    and i: "i = index_of (map name roster) requester"
    and j: "j = index_of (map name roster) requested"
    by (auto simp: resolve_buddies_def Let_def)
  from index_of_less[OF names(1)] index_of_less[OF names(2)] i j
  have lt: "i < length roster" "j < length roster" by simp_all
  from nth_index_of[OF names(1)] nth_index_of[OF names(2)] i j lt
  have "name (roster ! i) = requester" "name (roster ! j) = requested" by simp_all
  with lt in_list show ?thesis by simp
qed

lemma model_variables_tas:
  assumes "\<forall>(i, j)\<in>set buddies. i < length roster \<and> j < length roster"
    and "x \<in> set (model_variables p blocks roster buddies)"
    and "t \<in> set (var_tas x)"
  shows "t < length roster"
proof -
  from assms(2) consider
      (oh) i where "i < length roster" "x \<in> set (oh_variables_ta p blocks i (oh_available (roster ! i)))"
    | (rec) i where "i < length roster"
        "x \<in> set (map snd (row_recitations i (recitation_available (roster ! i))))"
    | (buddy) "x \<in> set (map fst (buddy_links roster buddies))"
    unfolding model_variables_def set_append in_concat_enumerate Un_iff by blast
  then show ?thesis
  proof cases
    case oh
    with assms(3) show ?thesis
      by (auto simp: oh_variables_ta_def row_blocks_def shift_vars_row_shifts)
  next
    case rec
    with assms(3) show ?thesis
      by (auto simp: row_recitations_def)
  next
    case buddy
    then obtain k i j r where "(k, i, j) \<in> set (enumerate 0 buddies)" "x = BuddyVar k i j r"
      by (auto simp: buddy_links_def Let_def)
    then have "k < length buddies \<and> buddies ! k = (i, j)" "t = i \<or> t = j"
      using assms(3) by (auto simp: in_set_enumerate_eq)
    then have "(i, j) \<in> set buddies" "t = i \<or> t = j"
      using nth_mem[of k buddies] by auto
    with assms(1) show ?thesis by auto
  qed
qed

text \<open>
  Claim C10. The filter cell keeps exactly the rows whose \<^verbatim>\<open>max_hours\<close> exceed the
  grading time, so every assistant of the filtered roster has
  \<^verbatim>\<open>max_hours - grading_time_commitment > 0\<close>. The program is built from the filtered
  roster: every variable belongs to assistants of that roster, and every resolved buddy
  request names two of them.
\<close>

theorem roster_filter:
  assumes m: "ip_model p block_index n_recitations ta_utility (filter_roster p df) ta_buddies = Inr m"
  shows "(\<forall>row\<in>set df. row \<in> set (filter_roster p df) \<longleftrightarrow>
            max_hours row > grading_time_commitment p) \<and>
         (\<forall>row\<in>set (filter_roster p df). max_hours row - grading_time_commitment p > 0) \<and>
         (\<forall>x\<in>set (variables m). \<forall>t\<in>set (var_tas x).
            t < length (filter_roster p df) \<and>
            max_hours (filter_roster p df ! t) - grading_time_commitment p > 0) \<and>
         (\<forall>(i, j)\<in>set (resolve_buddies (filter_roster p df) ta_buddies).
            i < length (filter_roster p df) \<and> j < length (filter_roster p df) \<and>
            (name (filter_roster p df ! i), name (filter_roster p df ! j)) \<in> set ta_buddies)"
proof -
  let ?roster = "filter_roster p df"
  have kept: "\<forall>row\<in>set ?roster. max_hours row - grading_time_commitment p > 0"
    by (simp add: filter_roster_def)
  have buddies: "\<forall>(i, j)\<in>set (resolve_buddies ?roster ta_buddies).
            i < length ?roster \<and> j < length ?roster \<and>
            (name (?roster ! i), name (?roster ! j)) \<in> set ta_buddies"
    using in_resolve_buddies by blast
  have vars: "variables m = model_variables p (map fst block_index) ?roster
                (resolve_buddies ?roster ta_buddies)"
    using ip_model_Inr[OF m] by simp
  have "t < length ?roster \<and> max_hours (?roster ! t) - grading_time_commitment p > 0"
    if "x \<in> set (variables m)" "t \<in> set (var_tas x)" for x t
  proof -
    have "\<forall>(i, j)\<in>set (resolve_buddies ?roster ta_buddies). i < length ?roster \<and> j < length ?roster"
      using buddies by blast
    from model_variables_tas[OF this that(1)[unfolded vars] that(2)]
    have "t < length ?roster" .
    with kept show ?thesis by simp
  qed
  with kept buddies show ?thesis
    by (simp add: filter_roster_def)
qed

lemma gail_filtered: "filter_roster small_params [alice, gail, bob, carol] = [alice, bob, carol]"
  by code_simp

lemma gail_request: "resolve_buddies [alice, bob, carol] [(''alice'', ''gail'')] = []"
  by code_simp

theorem roster_filter_witness:
  "\<exists>m. ip_model small_params week_index 1 unit_utility
          (filter_roster small_params [alice, gail, bob, carol]) [(''alice'', ''gail'')] = Inr m \<and>
       max_hours gail = grading_time_commitment small_params \<and>
       gail \<notin> set (filter_roster small_params [alice, gail, bob, carol]) \<and>
       alice \<in> set (filter_roster small_params [alice, gail, bob, carol]) \<and>
       0 < max_hours alice - grading_time_commitment small_params \<and>
       BlockVar 0 0 \<in> set (variables m)"
proof -
  have "ip_model small_params week_index 1 unit_utility [alice, bob, carol] [(''alice'', ''gail'')]
          = ip_model small_params week_index 1 unit_utility [alice, bob, carol] []"
    by (simp add: ip_model_def gail_request)
  then obtain m where m: "ip_model small_params week_index 1 unit_utility
          (filter_roster small_params [alice, gail, bob, carol]) [(''alice'', ''gail'')] = Inr m"
    and vars: "variables m = model_variables small_params (map fst week_index) [alice, bob, carol] []"
    unfolding gail_filtered using small_model by simp
  have g: "max_hours gail = grading_time_commitment small_params"
    by (simp add: gail_def small_params_def notebook_params_def)
  have a: "grading_time_commitment small_params < max_hours alice"
    by (simp add: alice_def small_params_def notebook_params_def)
  note r = roster_filter[OF m]
  from r g have "gail \<notin> set (filter_roster small_params [alice, gail, bob, carol])"
    by simp
  moreover from r a have in_roster: "alice \<in> set (filter_roster small_params [alice, gail, bob, carol])"
    by simp
  moreover from r in_roster have "0 < max_hours alice - grading_time_commitment small_params"
    by blast
  moreover have "BlockVar 0 0 \<in> set (variables m)"
    unfolding vars by (simp add: BlockVar_in_model_variables alice_def)
  ultimately show ?thesis using m g by blast
qed

section \<open>Validation of the input\<close>

text \<open>
  Claim C6, amended. A recitation marked by an assistant of willingness 0 is detected
  before the program is built and ends the run with \<^verbatim>\<open>AssertionError\<close>, and nothing
  else does. When no assistant has willingness 0 the same line ends the run with
  \<^verbatim>\<open>AttributeError\<close>, whatever the rows hold. A preferred block that is not available
  is not detected: when some assistant has willingness 0 and the assertion passes, the
  outcome of the cleanup does not depend on the preferred blocks of any row but row 9,
  whose availability is replaced by them.
\<close>

theorem cleanup_validation:
  "(cleanup p df = Inl AssertionError \<longleftrightarrow>
      (\<exists>row\<in>set df. recitation_pref row = 0 \<and> np_sum (recitation_available row) \<noteq> 0)) \<and>
   (cleanup p df = Inl AttributeError \<longleftrightarrow> (\<forall>row\<in>set df. recitation_pref row \<noteq> 0)) \<and>
   ((\<exists>row\<in>set df. recitation_pref row = 0) \<and>
    (\<forall>row\<in>set df. recitation_pref row = 0 \<longrightarrow> np_sum (recitation_available row) = 0) \<longrightarrow>
      cleanup p df =
        (if length df < 10 then Inl KeyError
         else Inr (filter_roster p
                (df[2 := (df ! 2)\<lparr>max_hours := 5\<rparr>,
                    9 := (df ! 9)\<lparr>oh_available := oh_pref_available (df ! 9)\<rparr>])))) "
proof (intro conjI impI)
  show "cleanup p df = Inl AssertionError \<longleftrightarrow>
      (\<exists>row\<in>set df. recitation_pref row = 0 \<and> np_sum (recitation_available row) \<noteq> 0)"
  proof (cases "assert_no_recitation df")
    case (Inl e)
    then have "cleanup p df = Inl e" by (simp add: cleanup_def)
    with Inl show ?thesis
      using assert_no_recitation_Inl[of df e] by auto
  next
    case (Inr u)
    then have ok: "\<forall>row\<in>set df. recitation_pref row = 0 \<longrightarrow> np_where (recitation_available row) = []"
      unfolding assert_no_recitation_Inr by (rule conjunct2)
    have "cleanup p df \<noteq> Inl AssertionError"
      using Inr by (simp add: cleanup_def special_cases_def Let_def)
    with ok show ?thesis by (auto simp: np_sum_0_iff)
  qed
next
  show "cleanup p df = Inl AttributeError \<longleftrightarrow> (\<forall>row\<in>set df. recitation_pref row \<noteq> 0)"
  proof (cases "assert_no_recitation df")
    case (Inl e)
    then have "cleanup p df = Inl e" by (simp add: cleanup_def)
    with Inl show ?thesis
      using assert_no_recitation_Inl[of df e] by auto
  next
    case (Inr u)
    then have some: "\<exists>row\<in>set df. recitation_pref row = 0"
      unfolding assert_no_recitation_Inr by (rule conjunct1)
    have "cleanup p df \<noteq> Inl AttributeError"
      using Inr by (simp add: cleanup_def special_cases_def Let_def)
    with some show ?thesis by blast
  qed
next
  assume "(\<exists>row\<in>set df. recitation_pref row = 0) \<and>
    (\<forall>row\<in>set df. recitation_pref row = 0 \<longrightarrow> np_sum (recitation_available row) = 0)"
  then have "assert_no_recitation df = Inr ()"
    unfolding assert_no_recitation_Inr by (simp add: np_sum_0_iff)
  then show "cleanup p df =
        (if length df < 10 then Inl KeyError
         else Inr (filter_roster p
                (df[2 := (df ! 2)\<lparr>max_hours := 5\<rparr>,
                    9 := (df ! 9)\<lparr>oh_available := oh_pref_available (df ! 9)\<rparr>])))"
    by (simp add: cleanup_def special_cases_def Let_def)
qed

theorem cleanup_validation_witness:
  "recitation_pref zed = 0 \<and> np_sum (recitation_available zed) = 1 \<and>
   cleanup small_params (replicate 10 zed) = Inl AssertionError \<and>
   recitation_pref alice = 4 \<and>
   cleanup small_params (replicate 10 alice) = Inl AttributeError \<and>
   cleanup small_params small_df = Inr [alice, bob, carol]"
proof -
  have z: "recitation_pref zed = 0" "np_sum (recitation_available zed) = 1"
    by (simp_all add: zed_def bob_def np_sum_def)
  then have "\<exists>row\<in>set (replicate 10 zed).
      recitation_pref row = 0 \<and> np_sum (recitation_available row) \<noteq> 0"
    by simp
  with cleanup_validation[of small_params "replicate 10 zed"]
  have bad: "cleanup small_params (replicate 10 zed) = Inl AssertionError"
    by blast
  have a: "recitation_pref alice = 4"
    by (simp add: alice_def)
  then have "\<forall>row\<in>set (replicate 10 alice). recitation_pref row \<noteq> 0"
    by simp
  with cleanup_validation[of small_params "replicate 10 alice"]
  have none: "cleanup small_params (replicate 10 alice) = Inl AttributeError"
    by blast
  have some: "\<exists>row\<in>set small_df. recitation_pref row = 0"
    by (simp add: small_df_def bob_def)
  have ok: "\<forall>row\<in>set small_df. recitation_pref row = 0 \<longrightarrow> np_sum (recitation_available row) = 0"
    by (auto simp: small_df_def alice_def bob_def carol_def np_sum_def)
  have len: "\<not> length small_df < 10"
    by (simp add: small_df_def)
  have patched: "filter_roster small_params
      (small_df[2 := (small_df ! 2)\<lparr>max_hours := 5\<rparr>,
                9 := (small_df ! 9)\<lparr>oh_available := oh_pref_available (small_df ! 9)\<rparr>])
      = [alice, bob, carol]"
    by code_simp
  from cleanup_validation[of small_params small_df] some ok len
  have "cleanup small_params small_df = Inr [alice, bob, carol]"
    unfolding patched by simp
  with z bad a none show ?thesis by (intro conjI)
qed

text \<open>
  The claim as stated fails: ten rows that each prefer a block they are not available
  for pass the cleanup, and row 9 leaves it with the block made available.
\<close>

theorem preferred_not_available_accepted:
  "pref_not_available hal = 1 \<and>
   cleanup notebook_params (replicate 10 hal) =
     Inr ((replicate 10 hal)[2 := hal\<lparr>max_hours := 5\<rparr>, 9 := hal\<lparr>oh_available := [True]\<rparr>])"
  by code_simp

end
